theory Spec2Isabelle
  imports Main "HOL-Library.Word"
begin

section \<open>Decoded JSON values and the Python operations applied to them\<close>

text \<open>
  \<^verbatim>\<open>json.load\<close> yields \<^verbatim>\<open>None\<close>, \<^verbatim>\<open>bool\<close>, \<^verbatim>\<open>int\<close>, \<^verbatim>\<open>float\<close>, \<^verbatim>\<open>str\<close>,
  \<^verbatim>\<open>list\<close> and \<^verbatim>\<open>dict\<close> values. A \<^verbatim>\<open>float\<close> is kept as its IEEE-754 bit pattern, a
  \<^verbatim>\<open>dict\<close> as its key/value pairs in iteration order (the keys distinct, looked up with
  \<open>map_of\<close>), a \<^verbatim>\<open>str\<close> as the list of its code points, each below 256.
\<close>

datatype json =
    JNull
  | JBool bool
  | JInt int
  | JFloat "64 word"
  | JStr string
  | JArr "json list"
  | JObj "(string \<times> json) list"

datatype error =
    AttributeError
  | TypeError
  | KeyError
  | IndexError
  | SystemExit string

text \<open>Sequencing of two computations that may raise: the first exception wins.\<close>

definition bind :: "error + 'a \<Rightarrow> ('a \<Rightarrow> error + 'b) \<Rightarrow> error + 'b" where
  "bind m f = (case m of Inl e \<Rightarrow> Inl e | Inr x \<Rightarrow> f x)"

text \<open>Python truth value of a decoded value.\<close>

fun truthy :: "json \<Rightarrow> bool" where
  "truthy JNull = False"
| "truthy (JBool b) = b"
| "truthy (JInt i) = (i \<noteq> 0)"
| "truthy (JFloat w) = (w \<noteq> 0 \<and> w \<noteq> 0x8000000000000000)"
| "truthy (JStr s) = (s \<noteq> [])"
| "truthy (JArr xs) = (xs \<noteq> [])"
| "truthy (JObj kvs) = (kvs \<noteq> [])"

text \<open>\<^verbatim>\<open>a or b\<close> on already evaluated operands.\<close>

definition py_or :: "json \<Rightarrow> json \<Rightarrow> json" where
  "py_or a b = (if truthy a then a else b)"

text \<open>\<^verbatim>\<open>v.get(k, dflt)\<close>: only a \<^verbatim>\<open>dict\<close> has the method.\<close>

fun get_default :: "json \<Rightarrow> string \<Rightarrow> json \<Rightarrow> error + json" where
  "get_default (JObj kvs) k dflt = Inr (case map_of kvs k of None \<Rightarrow> dflt | Some v \<Rightarrow> v)"
| "get_default _ k dflt = Inl AttributeError"

text \<open>\<^verbatim>\<open>v.get(k)\<close>: the default is \<^verbatim>\<open>None\<close>.\<close>

definition get :: "json \<Rightarrow> string \<Rightarrow> error + json" where
  "get v k = get_default v k JNull"

text \<open>
  The items a \<^verbatim>\<open>for\<close> loop, \<^verbatim>\<open>set(...)\<close> or \<^verbatim>\<open>str.join\<close> draws from a value: the
  elements of a list, the one-character strings of a string, the keys of a dict.
\<close>

fun py_iter :: "json \<Rightarrow> error + json list" where
  "py_iter (JArr xs) = Inr xs"
| "py_iter (JStr s) = Inr (map (\<lambda>c. JStr [c]) s)"
| "py_iter (JObj kvs) = Inr (map (\<lambda>kv. JStr (fst kv)) kvs)"
| "py_iter _ = Inl TypeError"

text \<open>\<^verbatim>\<open>v[0]\<close>.\<close>

fun item0 :: "json \<Rightarrow> error + json" where
  "item0 (JArr []) = Inl IndexError"
| "item0 (JArr (x # xs)) = Inr x"
| "item0 (JStr []) = Inl IndexError"
| "item0 (JStr (c # s)) = Inr (JStr [c])"
| "item0 (JObj kvs) = Inl KeyError"
| "item0 _ = Inl TypeError"

text \<open>
  \<^verbatim>\<open>str.lower\<close> on code points below 256: the letters A to Z and the upper-case
  letters of Latin-1 (192 to 222 without the multiplication sign 215) move up by 32.
\<close>

definition lower_char :: "char \<Rightarrow> char" where
  "lower_char c =
     (let n = (of_char c :: nat)
      in if (65 \<le> n \<and> n \<le> 90) \<or> (192 \<le> n \<and> n \<le> 222 \<and> n \<noteq> 215)
         then char_of (n + 32) else c)"

text \<open>\<^verbatim>\<open>v.lower()\<close>: only a \<^verbatim>\<open>str\<close> has the method.\<close>

fun lower :: "json \<Rightarrow> error + string" where
  "lower (JStr s) = Inr (map lower_char s)"
| "lower _ = Inl AttributeError"

text \<open>\<^verbatim>\<open>sep.join(items)\<close> on strings.\<close>

fun join_strs :: "string \<Rightarrow> string list \<Rightarrow> string" where
  "join_strs sep [] = []"
| "join_strs sep [s] = s"
| "join_strs sep (s # t # ss) = s @ sep @ join_strs sep (t # ss)"

text \<open>The items of \<^verbatim>\<open>str.join\<close> must all be \<^verbatim>\<open>str\<close>.\<close>

fun all_strs :: "json list \<Rightarrow> error + string list" where
  "all_strs [] = Inr []"
| "all_strs (JStr s # vs) = (case all_strs vs of Inl e \<Rightarrow> Inl e | Inr ss \<Rightarrow> Inr (s # ss))"
| "all_strs (_ # vs) = Inl TypeError"

definition join :: "string \<Rightarrow> json list \<Rightarrow> error + string" where
  "join sep vs = bind (all_strs vs) (\<lambda>ss. Inr (join_strs sep ss))"

text \<open>
  \<^verbatim>\<open>set(v)\<close>: every item must be hashable, which lists and dicts are not. The result
  is used for membership of strings only, where Python's equality is equality of values.
\<close>

fun hashable :: "json \<Rightarrow> bool" where
  "hashable (JArr xs) = False"
| "hashable (JObj kvs) = False"
| "hashable _ = True"

definition py_set :: "json \<Rightarrow> error + json set" where
  "py_set v = bind (py_iter v) (\<lambda>xs. if list_all hashable xs then Inr (set xs) else Inl TypeError)"

section \<open>MatchFilter\<close>

text \<open>
  \<^verbatim>\<open>is_ind_eng_test\<close>, lines 33 to 37. \<open>category_rejects\<close> is the condition of the
  \<^verbatim>\<open>if\<close> on line 34, with Python's short-circuit evaluation of \<^verbatim>\<open>or\<close> and \<^verbatim>\<open>and\<close>.
\<close>

definition category_rejects :: "json \<Rightarrow> error + bool" where
  "category_rejects info =
     bind (get info ''match_type'') (\<lambda>mt.
     bind (if truthy mt then Inr mt else get info ''match_type_number'') (\<lambda>declared.
     if truthy declared
     then bind (get info ''match_type'') (\<lambda>mt'.
          bind (lower (py_or mt' (JStr ''''))) (\<lambda>s. Inr (s \<noteq> ''test'')))
     else Inr False))"

definition is_ind_eng_test :: "json \<Rightarrow> error + bool" where
  "is_ind_eng_test info =
     bind (category_rejects info) (\<lambda>r.
     if r then Inr False
     else bind (get info ''teams'') (\<lambda>t.
          bind (py_set (py_or t (JArr []))) (\<lambda>teams.
          Inr ({JStr ''India'', JStr ''England''} \<subseteq> teams))))"

text \<open>
  \<^verbatim>\<open>within_series_window\<close>, lines 21 to 31. A \<^verbatim>\<open>datetime.date\<close> is its year, month and
  day, ordered lexicographically. The builtin \<^verbatim>\<open>str\<close> and the library function
  \<^verbatim>\<open>datetime.fromisoformat\<close> (followed by \<^verbatim>\<open>.date()\<close>; \<open>None\<close> when it raises) are
  parameters.
\<close>

datatype date = Date (year: int) (month: int) (day: int)

definition date_le :: "date \<Rightarrow> date \<Rightarrow> bool" where
  "date_le a b =
     (year a < year b \<or>
      (year a = year b \<and> (month a < month b \<or> (month a = month b \<and> day a \<le> day b))))"

definition START :: date where
  "START = Date 2025 6 1"

definition END :: date where
  "END = Date 2025 8 31"

text \<open>The \<^verbatim>\<open>for\<close> loop of lines 24 to 31; every exception of the body is caught.\<close>

fun window_loop :: "(json \<Rightarrow> string) \<Rightarrow> (string \<Rightarrow> date option) \<Rightarrow> json list \<Rightarrow> bool" where
  "window_loop str fromisoformat [] = False"
| "window_loop str fromisoformat (d # ds) =
     (case fromisoformat (str d) of
        None \<Rightarrow> window_loop str fromisoformat ds
      | Some dt \<Rightarrow>
          if date_le START dt \<and> date_le dt END then True
          else window_loop str fromisoformat ds)"

definition within_series_window ::
    "(json \<Rightarrow> string) \<Rightarrow> (string \<Rightarrow> date option) \<Rightarrow> json \<Rightarrow> error + bool" where
  "within_series_window str fromisoformat info =
     bind (get info ''dates'') (\<lambda>v.
     bind (py_iter (py_or v (JArr []))) (\<lambda>ds.
     Inr (window_loop str fromisoformat ds)))"

section \<open>DeliveryFlattener\<close>

text \<open>One row of the output: the dict appended on lines 80 to 112, key by key.\<close>

record ball =
  match_id :: json
  season :: json
  date_list :: string
  venue :: json
  city :: json
  teams :: string
  innings :: int
  batting_team :: json
  over :: json
  ball_label :: json
  batter :: json
  bowler :: json
  non_striker :: json
  runs_batter :: json
  runs_extras :: json
  runs_total :: json
  extra_byes :: json
  extra_legbyes :: json
  extra_wides :: json
  extra_noballs :: json
  extra_penalty :: json
  wicket_kind :: json
  wicket_player_out :: json
  wicket_fielders :: json

text \<open>The match-level local variables of \<^verbatim>\<open>flatten_match\<close>, lines 64 to 69.\<close>

record match_vars =
  v_match_id :: json
  v_season :: json
  v_dates :: json
  v_venue :: json
  v_city :: json
  v_teams :: json

text \<open>
  \<^verbatim>\<open>wicket_list[0].get(k) if wicket_list else None\<close>, lines 108 and 109.
\<close>

definition first_wicket :: "json \<Rightarrow> string \<Rightarrow> error + json" where
  "first_wicket wicket_list k =
     (if truthy wicket_list then bind (item0 wicket_list) (\<lambda>w. get w k) else Inr JNull)"

text \<open>
  The list comprehension of lines 110 and 111:
  \<^verbatim>\<open>[w.get("fielders", [{}])[0].get("name","") for w in wicket_list if w.get("fielders")]\<close>.
\<close>

fun fielder_names :: "json list \<Rightarrow> error + json list" where
  "fielder_names [] = Inr []"
| "fielder_names (w # ws) =
     (case get w ''fielders'' of
        Inl e \<Rightarrow> Inl e
      | Inr c \<Rightarrow>
          if truthy c
          then (case bind (get_default w ''fielders'' (JArr [JObj []])) (\<lambda>fs.
                     bind (item0 fs) (\<lambda>f. get_default f ''name'' (JStr ''''))) of
                  Inl e \<Rightarrow> Inl e
                | Inr n \<Rightarrow>
                    (case fielder_names ws of Inl e \<Rightarrow> Inl e | Inr ns \<Rightarrow> Inr (n # ns)))
          else fielder_names ws)"

text \<open>The value of the key \<^verbatim>\<open>wicket_fielders\<close>, lines 110 and 111.\<close>

definition fielders_value :: "json \<Rightarrow> error + json" where
  "fielders_value wicket_list =
     (if truthy wicket_list
      then bind (py_iter wicket_list) (\<lambda>ws.
           bind (fielder_names ws) (\<lambda>ns.
           bind (join '','' ns) (\<lambda>s. Inr (JStr s))))
      else Inr JNull)"

text \<open>
  The body of the innermost loop, lines 77 to 112: the three local variables, then the
  values of the dict in the order in which Python evaluates them.
\<close>

definition delivery_row ::
    "(json \<Rightarrow> string) \<Rightarrow> match_vars \<Rightarrow> int \<Rightarrow> json \<Rightarrow> json \<Rightarrow> json \<Rightarrow> error + ball" where
  "delivery_row str m inn_no team over_no d =
     bind (get_default d ''runs'' (JObj [])) (\<lambda>runs.
     bind (get_default d ''wickets'' (JArr [])) (\<lambda>wk.
     bind (get_default d ''extras'' (JObj [])) (\<lambda>ex.
     bind (py_iter (py_or (v_dates m) (JArr []))) (\<lambda>ds.
     bind (bind (py_iter (py_or (v_teams m) (JArr []))) (join '','')) (\<lambda>ts.
     bind (get d ''ball'') (\<lambda>d_ball.
     bind (get d ''batter'') (\<lambda>d_batter.
     bind (get d ''bowler'') (\<lambda>d_bowler.
     bind (get d ''non_striker'') (\<lambda>d_non_striker.
     bind (get_default runs ''batter'' (JInt 0)) (\<lambda>r_batter.
     bind (get_default runs ''extras'' (JInt 0)) (\<lambda>r_extras.
     bind (get_default runs ''total'' (JInt 0)) (\<lambda>r_total.
     bind (get_default (py_or ex (JObj [])) ''byes'' (JInt 0)) (\<lambda>e_byes.
     bind (get_default (py_or ex (JObj [])) ''legbyes'' (JInt 0)) (\<lambda>e_legbyes.
     bind (get_default (py_or ex (JObj [])) ''wides'' (JInt 0)) (\<lambda>e_wides.
     bind (get_default (py_or ex (JObj [])) ''noballs'' (JInt 0)) (\<lambda>e_noballs.
     bind (get_default (py_or ex (JObj [])) ''penalty'' (JInt 0)) (\<lambda>e_penalty.
     bind (first_wicket (py_or wk (JArr [])) ''kind'') (\<lambda>w_kind.
     bind (first_wicket (py_or wk (JArr [])) ''player_out'') (\<lambda>w_player_out.
     bind (fielders_value (py_or wk (JArr []))) (\<lambda>w_fielders.
     Inr \<lparr> match_id = v_match_id m,
           season = v_season m,
           date_list = join_strs '','' (map str ds),
           venue = v_venue m,
           city = v_city m,
           teams = ts,
           innings = inn_no,
           batting_team = team,
           over = over_no,
           ball_label = d_ball,
           batter = d_batter,
           bowler = d_bowler,
           non_striker = d_non_striker,
           runs_batter = r_batter,
           runs_extras = r_extras,
           runs_total = r_total,
           extra_byes = e_byes,
           extra_legbyes = e_legbyes,
           extra_wides = e_wides,
           extra_noballs = e_noballs,
           extra_penalty = e_penalty,
           wicket_kind = w_kind,
           wicket_player_out = w_player_out,
           wicket_fielders = w_fielders \<rparr>))))))))))))))))))))"

text \<open>The loop over the deliveries of an over, lines 76 to 112; \<open>balls\<close> is the list appended to.\<close>

fun deliveries_loop ::
    "(json \<Rightarrow> string) \<Rightarrow> match_vars \<Rightarrow> int \<Rightarrow> json \<Rightarrow> json \<Rightarrow> ball list \<Rightarrow> json list
       \<Rightarrow> error + ball list" where
  "deliveries_loop str m inn_no team over_no balls [] = Inr balls"
| "deliveries_loop str m inn_no team over_no balls (d # ds) =
     (case delivery_row str m inn_no team over_no d of
        Inl e \<Rightarrow> Inl e
      | Inr b \<Rightarrow> deliveries_loop str m inn_no team over_no (balls @ [b]) ds)"

text \<open>The loop over the overs of an innings, lines 74 to 112.\<close>

fun overs_loop ::
    "(json \<Rightarrow> string) \<Rightarrow> match_vars \<Rightarrow> int \<Rightarrow> json \<Rightarrow> ball list \<Rightarrow> json list
       \<Rightarrow> error + ball list" where
  "overs_loop str m inn_no team balls [] = Inr balls"
| "overs_loop str m inn_no team balls (over_block # obs) =
     (case bind (get over_block ''over'') (\<lambda>over_no.
           bind (get_default over_block ''deliveries'' (JArr [])) (\<lambda>dv.
           bind (py_iter dv) (\<lambda>ds.
           deliveries_loop str m inn_no team over_no balls ds))) of
        Inl e \<Rightarrow> Inl e
      | Inr balls' \<Rightarrow> overs_loop str m inn_no team balls' obs)"

text \<open>The loop over the innings, lines 72 to 112; \<^verbatim>\<open>enumerate\<close> counts \<open>inn_no\<close> up.\<close>

fun innings_loop ::
    "(json \<Rightarrow> string) \<Rightarrow> match_vars \<Rightarrow> int \<Rightarrow> ball list \<Rightarrow> json list \<Rightarrow> error + ball list" where
  "innings_loop str m inn_no balls [] = Inr balls"
| "innings_loop str m inn_no balls (inn # inns) =
     (case bind (get inn ''team'') (\<lambda>team.
           bind (get_default inn ''overs'' (JArr [])) (\<lambda>ov.
           bind (py_iter ov) (\<lambda>obs.
           overs_loop str m inn_no team balls obs))) of
        Inl e \<Rightarrow> Inl e
      | Inr balls' \<Rightarrow> innings_loop str m (inn_no + 1) balls' inns)"

text \<open>\<^verbatim>\<open>flatten_match\<close>, lines 44 to 113.\<close>

definition flatten_match :: "(json \<Rightarrow> string) \<Rightarrow> json \<Rightarrow> error + ball list" where
  "flatten_match str json_obj =
     bind (get_default json_obj ''info'' (JObj [])) (\<lambda>info.
     bind (get info ''match_id'') (\<lambda>mid.
     bind (if truthy mid then Inr mid
           else bind (get_default info ''event'' (JObj [])) (\<lambda>ev. get ev ''match_number''))
       (\<lambda>i_match_id.
     bind (get info ''venue'') (\<lambda>i_venue.
     bind (get info ''city'') (\<lambda>i_city.
     bind (get info ''teams'') (\<lambda>i_teams.
     bind (get info ''dates'') (\<lambda>i_dates.
     bind (get info ''season'') (\<lambda>i_season.
     bind (get_default json_obj ''innings'' (JArr [])) (\<lambda>iv.
     bind (py_iter iv) (\<lambda>inns.
     innings_loop str
       \<lparr> v_match_id = i_match_id, v_season = i_season, v_dates = i_dates,
         v_venue = i_venue, v_city = i_city, v_teams = i_teams \<rparr>
       1 [] inns))))))))))"

section \<open>The pipeline\<close>

text \<open>
  \<^verbatim>\<open>main\<close>, lines 115 to 149. The downloaded archive is given as the list of its entries:
  each a name and the result of \<^verbatim>\<open>json.load\<close> on it (\<open>None\<close> when that raises). The
  result \<open>Inr rows\<close> stands for reaching line 140 with \<open>rows\<close>, from which the table is
  built and written to the output file; pandas is not modelled.
\<close>

definition endswith :: "string \<Rightarrow> string \<Rightarrow> bool" where
  "endswith s suffix = (length suffix \<le> length s \<and> drop (length s - length suffix) s = suffix)"

definition exit_message :: string where
  "exit_message =
     ''No India vs England Test matches found in the specified window. '' @
     ''Try widening START/END or verify series dates.''"

text \<open>
  The body of the loop of lines 123 to 134: the rows the entry adds to \<^verbatim>\<open>rows\<close>, none
  when the iteration ends in \<^verbatim>\<open>continue\<close>.
\<close>

definition scan_entry ::
    "(json \<Rightarrow> string) \<Rightarrow> (string \<Rightarrow> date option) \<Rightarrow> json option \<Rightarrow> error + ball list" where
  "scan_entry str fromisoformat loaded =
     (case loaded of
        None \<Rightarrow> Inr []
      | Some obj \<Rightarrow>
          bind (get_default obj ''info'' (JObj [])) (\<lambda>info.
          bind (is_ind_eng_test info) (\<lambda>t.
          if \<not> t then Inr []
          else bind (within_series_window str fromisoformat info) (\<lambda>w.
               if \<not> w then Inr [] else flatten_match str obj))))"

fun scan ::
    "(json \<Rightarrow> string) \<Rightarrow> (string \<Rightarrow> date option) \<Rightarrow> ball list \<Rightarrow> (string \<times> json option) list
       \<Rightarrow> error + ball list" where
  "scan str fromisoformat rows [] = Inr rows"
| "scan str fromisoformat rows (entry # rest) =
     (case scan_entry str fromisoformat (snd entry) of
        Inl e \<Rightarrow> Inl e
      | Inr bs \<Rightarrow> scan str fromisoformat (rows @ bs) rest)"

definition main ::
    "(json \<Rightarrow> string) \<Rightarrow> (string \<Rightarrow> date option) \<Rightarrow> (string \<times> json option) list
       \<Rightarrow> error + ball list" where
  "main str fromisoformat archive =
     bind (scan str fromisoformat [] (filter (\<lambda>entry. endswith (fst entry) ''.json'') archive))
       (\<lambda>rows. if rows = [] then Inl (SystemExit exit_message) else Inr rows)"

section \<open>Shapes of the Data Model and the vocabulary of the properties\<close>

fun is_str :: "json \<Rightarrow> bool" where
  "is_str (JStr s) = True"
| "is_str _ = False"

fun is_obj :: "json \<Rightarrow> bool" where
  "is_obj (JObj kvs) = True"
| "is_obj _ = False"

fun is_arr :: "json \<Rightarrow> bool" where
  "is_arr (JArr xs) = True"
| "is_arr _ = False"

text \<open>A list of hashable values, and a list of strings.\<close>

fun hashable_list :: "json \<Rightarrow> bool" where
  "hashable_list (JArr xs) = list_all hashable xs"
| "hashable_list _ = False"

fun str_list :: "json \<Rightarrow> bool" where
  "str_list (JArr xs) = list_all is_str xs"
| "str_list _ = False"

text \<open>The value of a field of a mapping, \<open>dflt\<close> when the mapping has none.\<close>

fun member :: "json \<Rightarrow> string \<Rightarrow> json \<Rightarrow> json" where
  "member (JObj kvs) k dflt = (case map_of kvs k of None \<Rightarrow> dflt | Some v \<Rightarrow> v)"
| "member _ k dflt = dflt"

text \<open>The entries of a sequence.\<close>

fun entries :: "json \<Rightarrow> json list" where
  "entries (JArr xs) = xs"
| "entries _ = []"

text \<open>A mapping omits a subfield when it has no entry for it.\<close>

fun omits :: "json \<Rightarrow> string \<Rightarrow> bool" where
  "omits (JObj kvs) k = (map_of kvs k = None)"
| "omits _ k = False"

text \<open>An optional field: absent, \<^verbatim>\<open>null\<close>, or of the given shape.\<close>

definition opt_field :: "(json \<Rightarrow> bool) \<Rightarrow> (string \<times> json) list \<Rightarrow> string \<Rightarrow> bool" where
  "opt_field P kvs k = (case map_of kvs k of None \<Rightarrow> True | Some v \<Rightarrow> v = JNull \<or> P v)"

text \<open>
  What line 34 tests: that a mapping gives a field a truthy value (non-empty, non-zero,
  not \<^verbatim>\<open>null\<close>).
\<close>

definition truthy_field :: "(string \<times> json) list \<Rightarrow> string \<Rightarrow> bool" where
  "truthy_field kvs k = (case map_of kvs k of None \<Rightarrow> False | Some v \<Rightarrow> truthy v)"

text \<open>
  What line 34 compares: the text of \<^verbatim>\<open>match_type\<close>, the empty text when
  \<^verbatim>\<open>match_type\<close> is missing or not a string.
\<close>

definition category_text :: "(string \<times> json) list \<Rightarrow> string" where
  "category_text kvs = (case map_of kvs ''match_type'' of Some (JStr s) \<Rightarrow> s | _ \<Rightarrow> [])"

text \<open>Equality of two texts without regard to case.\<close>

definition ci_equal :: "string \<Rightarrow> string \<Rightarrow> bool" where
  "ci_equal s t = (map lower_char s = map lower_char t)"

text \<open>
  The category check as the specification words it: a mapping is rejected when it has a
  \<^verbatim>\<open>match_type\<close> or a \<^verbatim>\<open>match_type_number\<close> field and its category, the text of
  \<^verbatim>\<open>match_type\<close>, is present and is not \<^verbatim>\<open>test\<close> without regard to case. A mapping
  without \<^verbatim>\<open>match_type\<close> has no category and is not rejected.
\<close>

definition has_field :: "(string \<times> json) list \<Rightarrow> string \<Rightarrow> bool" where
  "has_field kvs k = (map_of kvs k \<noteq> None)"

definition claimed_category_rejects :: "(string \<times> json) list \<Rightarrow> bool" where
  "claimed_category_rejects kvs =
     ((has_field kvs ''match_type'' \<or> has_field kvs ''match_type_number'')
      \<and> (case map_of kvs ''match_type'' of
            Some (JStr s) \<Rightarrow> \<not> ci_equal s ''test''
          | _ \<Rightarrow> False))"

text \<open>The teams and the dates an info mapping declares.\<close>

definition declared_teams :: "(string \<times> json) list \<Rightarrow> json list" where
  "declared_teams kvs = entries (member (JObj kvs) ''teams'' JNull)"

definition declared_dates :: "(string \<times> json) list \<Rightarrow> json list" where
  "declared_dates kvs = entries (member (JObj kvs) ''dates'' JNull)"

text \<open>A declared date parses as a calendar date of the closed window from START to END.\<close>

definition in_window :: "date \<Rightarrow> bool" where
  "in_window dt = (date_le START dt \<and> date_le dt END)"

definition parses_in_window :: "(json \<Rightarrow> string) \<Rightarrow> (string \<Rightarrow> date option) \<Rightarrow> json \<Rightarrow> bool" where
  "parses_in_window str fromisoformat d =
     (case fromisoformat (str d) of None \<Rightarrow> False | Some dt \<Rightarrow> in_window dt)"

definition parses :: "(json \<Rightarrow> string) \<Rightarrow> (string \<Rightarrow> date option) \<Rightarrow> json \<Rightarrow> bool" where
  "parses str fromisoformat d = (fromisoformat (str d) \<noteq> None)"

text \<open>
  The shape of the Data Model, with every optional part allowed to be missing: a wicket
  is a mapping whose fielders, when there are any, start with a mapping with a string
  for a name; a delivery is a mapping with a mapping of runs, a mapping of extras and a
  list of wickets; an over is a mapping with a list of deliveries; an innings is a
  mapping with a list of overs.
\<close>

fun named_first :: "json \<Rightarrow> bool" where
  "named_first (JArr (f # fs)) = (is_obj f \<and> is_str (member f ''name'' (JStr [])))"
| "named_first _ = False"

definition wf_wicket :: "json \<Rightarrow> bool" where
  "wf_wicket w =
     (is_obj w \<and> (\<not> truthy (member w ''fielders'' JNull) \<or> named_first (member w ''fielders'' JNull)))"

fun wf_wickets :: "json \<Rightarrow> bool" where
  "wf_wickets (JArr ws) = list_all wf_wicket ws"
| "wf_wickets v = (\<not> truthy v)"

definition wf_delivery :: "json \<Rightarrow> bool" where
  "wf_delivery d =
     (is_obj d \<and> is_obj (member d ''runs'' (JObj []))
      \<and> (\<not> truthy (member d ''extras'' (JObj [])) \<or> is_obj (member d ''extras'' (JObj [])))
      \<and> wf_wickets (member d ''wickets'' (JArr [])))"

definition wf_over :: "json \<Rightarrow> bool" where
  "wf_over over_block =
     (is_obj over_block \<and> is_arr (member over_block ''deliveries'' (JArr []))
      \<and> list_all wf_delivery (entries (member over_block ''deliveries'' (JArr []))))"

definition wf_innings :: "json \<Rightarrow> bool" where
  "wf_innings inn =
     (is_obj inn \<and> is_arr (member inn ''overs'' (JArr []))
      \<and> list_all wf_over (entries (member inn ''overs'' (JArr []))))"

text \<open>The match-level values: dates a list when given, teams a list of strings when given.\<close>

definition wf_vars :: "match_vars \<Rightarrow> bool" where
  "wf_vars m =
     ((\<not> truthy (v_dates m) \<or> is_arr (v_dates m))
      \<and> (\<not> truthy (v_teams m) \<or> str_list (v_teams m)))"

text \<open>
  The match-level values of a document, as lines 63 to 69 read them from its info.
\<close>

definition info_of :: "json \<Rightarrow> json" where
  "info_of doc = member doc ''info'' (JObj [])"

definition match_number :: "json \<Rightarrow> json" where
  "match_number info = member (member info ''event'' (JObj [])) ''match_number'' JNull"

definition vars_of :: "json \<Rightarrow> match_vars" where
  "vars_of doc =
     \<lparr> v_match_id =
         (if truthy (member (info_of doc) ''match_id'' JNull)
          then member (info_of doc) ''match_id'' JNull
          else match_number (info_of doc)),
       v_season = member (info_of doc) ''season'' JNull,
       v_dates = member (info_of doc) ''dates'' JNull,
       v_venue = member (info_of doc) ''venue'' JNull,
       v_city = member (info_of doc) ''city'' JNull,
       v_teams = member (info_of doc) ''teams'' JNull \<rparr>"

definition wf_doc :: "json \<Rightarrow> bool" where
  "wf_doc doc =
     (is_obj doc \<and> is_obj (info_of doc)
      \<and> (truthy (member (info_of doc) ''match_id'' JNull)
          \<or> is_obj (member (info_of doc) ''event'' (JObj [])))
      \<and> wf_vars (vars_of doc)
      \<and> is_arr (member doc ''innings'' (JArr []))
      \<and> list_all wf_innings (entries (member doc ''innings'' (JArr []))))"

text \<open>
  The deliveries of a document in encounter order, innings by innings and over by over,
  each with the number of its innings (counted from \<open>n\<close>), its innings and its over.
\<close>

definition over_deliveries :: "json \<Rightarrow> json list" where
  "over_deliveries over_block = entries (member over_block ''deliveries'' (JArr []))"

definition innings_overs :: "json \<Rightarrow> json list" where
  "innings_overs inn = entries (member inn ''overs'' (JArr []))"

definition doc_innings :: "json \<Rightarrow> json list" where
  "doc_innings doc = entries (member doc ''innings'' (JArr []))"

definition innings_encounter :: "int \<Rightarrow> json \<Rightarrow> (int \<times> json \<times> json \<times> json) list" where
  "innings_encounter n inn =
     concat (map (\<lambda>over_block. map (\<lambda>d. (n, inn, over_block, d)) (over_deliveries over_block))
                 (innings_overs inn))"

fun encounter_from :: "int \<Rightarrow> json list \<Rightarrow> (int \<times> json \<times> json \<times> json) list" where
  "encounter_from n [] = []"
| "encounter_from n (inn # inns) = innings_encounter n inn @ encounter_from (n + 1) inns"

definition encounter :: "json \<Rightarrow> (int \<times> json \<times> json \<times> json) list" where
  "encounter doc = encounter_from 1 (doc_innings doc)"

definition delivery_count :: "json \<Rightarrow> nat" where
  "delivery_count doc =
     (\<Sum>inn \<leftarrow> doc_innings doc. \<Sum>over_block \<leftarrow> innings_overs inn. length (over_deliveries over_block))"

text \<open>The row the loop body makes of an encountered delivery.\<close>

definition row_of :: "(json \<Rightarrow> string) \<Rightarrow> match_vars \<Rightarrow> int \<times> json \<times> json \<times> json \<Rightarrow> error + ball" where
  "row_of str m e =
     (case e of (n, inn, over_block, d) \<Rightarrow>
        delivery_row str m n (member inn ''team'' JNull) (member over_block ''over'' JNull) d)"

text \<open>The fields of a row that say which delivery it is, and the same read off the delivery.\<close>

definition row_key :: "ball \<Rightarrow> int \<times> json \<times> json \<times> json \<times> json \<times> json \<times> json" where
  "row_key b = (innings b, batting_team b, over b, ball_label b, batter b, bowler b, non_striker b)"

definition delivery_key ::
    "int \<times> json \<times> json \<times> json \<Rightarrow> int \<times> json \<times> json \<times> json \<times> json \<times> json \<times> json" where
  "delivery_key e =
     (case e of (n, inn, over_block, d) \<Rightarrow>
        (n, member inn ''team'' JNull, member over_block ''over'' JNull,
         member d ''ball'' JNull, member d ''batter'' JNull, member d ''bowler'' JNull,
         member d ''non_striker'' JNull))"

text \<open>The text of a string value.\<close>

fun text_of :: "json \<Rightarrow> string" where
  "text_of (JStr s) = s"
| "text_of _ = []"

text \<open>The first entry of a sequence.\<close>

fun first_entry :: "json \<Rightarrow> json" where
  "first_entry (JArr (x # xs)) = x"
| "first_entry _ = JNull"

text \<open>
  The parts of a delivery: its runs breakdown, its extras breakdown and its wicket
  entries; whether a wicket entry has at least one fielder, and the name of its first.
\<close>

definition runs_of :: "json \<Rightarrow> json" where
  "runs_of d = member d ''runs'' (JObj [])"

definition extras_of :: "json \<Rightarrow> json" where
  "extras_of d = py_or (member d ''extras'' (JObj [])) (JObj [])"

definition wicket_entries :: "json \<Rightarrow> json list" where
  "wicket_entries d = entries (member d ''wickets'' (JArr []))"

definition has_fielders :: "json \<Rightarrow> bool" where
  "has_fielders w = truthy (member w ''fielders'' JNull)"

definition first_fielder_name :: "json \<Rightarrow> json" where
  "first_fielder_name w = member (first_entry (member w ''fielders'' JNull)) ''name'' (JStr [])"

definition fielder_text :: "json list \<Rightarrow> string" where
  "fielder_text ws = join_strs '','' (map (\<lambda>w. text_of (first_fielder_name w)) (filter has_fielders ws))"

text \<open>Example data: match-level values and four deliveries.\<close>

definition example_vars :: match_vars where
  "example_vars =
     \<lparr> v_match_id = JInt 3, v_season = JStr ''2025'',
       v_dates = JArr [JStr ''2025-06-20'', JStr ''2025-06-21''],
       v_venue = JStr ''Headingley'', v_city = JStr ''Leeds'',
       v_teams = JArr [JStr ''England'', JStr ''India''] \<rparr>"

definition plain_delivery :: json where
  "plain_delivery =
     JObj [(''batter'', JStr ''Jaiswal''), (''bowler'', JStr ''Woakes''),
           (''non_striker'', JStr ''Rahul''),
           (''runs'', JObj [(''batter'', JInt 0), (''extras'', JInt 1), (''total'', JInt 1)]),
           (''extras'', JObj [(''legbyes'', JInt 1)])]"

definition sparse_delivery :: json where
  "sparse_delivery =
     JObj [(''batter'', JStr ''Rahul''), (''bowler'', JStr ''Carse''),
           (''runs'', JObj [(''total'', JInt 4)])]"

definition bowled_delivery :: json where
  "bowled_delivery =
     JObj [(''batter'', JStr ''Rahul''), (''bowler'', JStr ''Carse''),
           (''runs'', JObj [(''batter'', JInt 0), (''extras'', JInt 0), (''total'', JInt 0)]),
           (''wickets'', JArr [JObj [(''kind'', JStr ''bowled''), (''player_out'', JStr ''Rahul'')]])]"

definition double_delivery :: json where
  "double_delivery =
     JObj [(''batter'', JStr ''Gill''), (''bowler'', JStr ''Stokes''),
           (''runs'', JObj [(''batter'', JInt 1), (''extras'', JInt 0), (''total'', JInt 1)]),
           (''wickets'',
            JArr [JObj [(''kind'', JStr ''run out''), (''player_out'', JStr ''Gill''),
                        (''fielders'', JArr [JObj [(''name'', JStr ''A'')]])],
                  JObj [(''kind'', JStr ''retired out''), (''player_out'', JStr ''Pant''),
                        (''fielders'', JArr [JObj [(''name'', JStr ''B'')]])]])]"

text \<open>An example document: two innings, three overs and the four deliveries above.\<close>

definition example_doc :: json where
  "example_doc =
     JObj [(''info'',
            JObj [(''match_type'', JStr ''Test''), (''season'', JStr ''2025''),
                  (''teams'', JArr [JStr ''England'', JStr ''India'']),
                  (''dates'', JArr [JStr ''2025-06-20'', JStr ''2025-06-21'']),
                  (''venue'', JStr ''Headingley''), (''city'', JStr ''Leeds''),
                  (''event'', JObj [(''name'', JStr ''India tour of England''),
                                    (''match_number'', JInt 3)])]),
           (''innings'',
            JArr [JObj [(''team'', JStr ''India''),
                        (''overs'',
                         JArr [JObj [(''over'', JInt 0),
                                     (''deliveries'', JArr [plain_delivery, double_delivery])],
                               JObj [(''over'', JInt 1),
                                     (''deliveries'', JArr [bowled_delivery])]])],
                  JObj [(''team'', JStr ''England''),
                        (''overs'',
                         JArr [JObj [(''over'', JInt 0),
                                     (''deliveries'', JArr [sparse_delivery])]])]])]"

text \<open>A delivery that gives only its players.\<close>

definition bare_delivery :: json where
  "bare_delivery = JObj [(''batter'', JStr ''Pant''), (''bowler'', JStr ''Archer'')]"

text \<open>A document with no info and a single delivery that gives only its players.\<close>

definition anonymous_doc :: json where
  "anonymous_doc =
     JObj [(''innings'',
            JArr [JObj [(''overs'', JArr [JObj [(''deliveries'', JArr [bare_delivery])]])]])]"

text \<open>
  The entries of the archive that the pipeline reads; a document passes the three filters
  when both filter functions return \<^verbatim>\<open>True\<close> on its info, and is turned down when one of
  them returns \<^verbatim>\<open>False\<close> and none raises before.
\<close>

definition json_entries :: "(string \<times> json option) list \<Rightarrow> (string \<times> json option) list" where
  "json_entries archive = filter (\<lambda>entry. endswith (fst entry) ''.json'') archive"

definition qualifies :: "(json \<Rightarrow> string) \<Rightarrow> (string \<Rightarrow> date option) \<Rightarrow> json \<Rightarrow> bool" where
  "qualifies str fromisoformat obj =
     (is_obj obj \<and> is_ind_eng_test (info_of obj) = Inr True
      \<and> within_series_window str fromisoformat (info_of obj) = Inr True)"

definition turned_down :: "(json \<Rightarrow> string) \<Rightarrow> (string \<Rightarrow> date option) \<Rightarrow> json \<Rightarrow> bool" where
  "turned_down str fromisoformat obj =
     (is_obj obj
      \<and> (is_ind_eng_test (info_of obj) = Inr False
          \<or> (is_ind_eng_test (info_of obj) = Inr True
              \<and> within_series_window str fromisoformat (info_of obj) = Inr False)))"

definition none_qualifies ::
    "(json \<Rightarrow> string) \<Rightarrow> (string \<Rightarrow> date option) \<Rightarrow> (string \<times> json option) list \<Rightarrow> bool" where
  "none_qualifies str fromisoformat archive =
     list_all (\<lambda>entry. case snd entry of None \<Rightarrow> True
                        | Some obj \<Rightarrow> \<not> qualifies str fromisoformat obj)
       (json_entries archive)"

definition all_turned_down ::
    "(json \<Rightarrow> string) \<Rightarrow> (string \<Rightarrow> date option) \<Rightarrow> (string \<times> json option) list \<Rightarrow> bool" where
  "all_turned_down str fromisoformat archive =
     list_all (\<lambda>entry. case snd entry of None \<Rightarrow> True
                        | Some obj \<Rightarrow> turned_down str fromisoformat obj)
       (json_entries archive)"

text \<open>An example document of another series.\<close>

definition other_doc :: json where
  "other_doc =
     JObj [(''info'',
            JObj [(''match_type'', JStr ''Test''),
                  (''teams'', JArr [JStr ''India'', JStr ''Australia'']),
                  (''dates'', JArr [JStr ''2025-06-20''])]),
           (''innings'', JArr [])]"

text \<open>
  Instances of the two parameters for evaluating the model on concrete documents:
  \<^verbatim>\<open>str\<close> is the identity on strings, and the three date texts below parse.
\<close>

fun sample_str :: "json \<Rightarrow> string" where
  "sample_str (JStr s) = s"
| "sample_str _ = ''?''"

definition sample_fromisoformat :: "string \<Rightarrow> date option" where
  "sample_fromisoformat s =
     (if s = ''2025-06-20'' then Some (Date 2025 6 20)
      else if s = ''2025-09-01'' then Some (Date 2025 9 1)
      else if s = ''2024-01-01'' then Some (Date 2024 1 1)
      else None)"

section \<open>Properties of the Python operations\<close>

lemma get_JObj: "get (JObj kvs) k = Inr (case map_of kvs k of None \<Rightarrow> JNull | Some v \<Rightarrow> v)"
  by (simp add: get_def)

lemma bind_Inr [simp]: "bind (Inr x) f = f x"
  by (simp add: bind_def)

lemma bind_Inl [simp]: "bind (Inl e) f = Inl e"
  by (simp add: bind_def)

lemma bind_eq_Inr: "bind m f = Inr y \<longleftrightarrow> (\<exists>x. m = Inr x \<and> f x = Inr y)"
  by (cases m) simp_all

lemma get_default_JObj: "get_default (JObj kvs) k dflt = Inr (member (JObj kvs) k dflt)"
  by simp

section \<open>Properties of MatchFilter\<close>

lemma lower_test: "map lower_char ''test'' = ''test''"
  by (simp add: lower_char_def)

lemma ci_equal_test: "ci_equal s ''test'' = (map lower_char s = ''test'')"
  unfolding ci_equal_def lower_test ..

lemma category_rejects_str:
  "map_of kvs ''match_type'' = Some (JStr s) \<Longrightarrow>
   category_rejects (JObj kvs) =
     Inr ((s \<noteq> [] \<or> truthy_field kvs ''match_type_number'') \<and> map lower_char s \<noteq> ''test'')"
  by (cases "s = []")
     (simp_all add: category_rejects_def get_JObj py_or_def truthy_field_def
        split: option.split)

lemma category_rejects_falsy:
  "map_of kvs ''match_type'' = None \<or> map_of kvs ''match_type'' = Some JNull \<Longrightarrow>
   category_rejects (JObj kvs) = Inr (truthy_field kvs ''match_type_number'')"
  by (auto simp add: category_rejects_def get_JObj py_or_def truthy_field_def
        split: option.split)

lemma category_rejects_eq:
  assumes "opt_field is_str kvs ''match_type''"
  shows "category_rejects (JObj kvs) =
           Inr ((truthy_field kvs ''match_type'' \<or> truthy_field kvs ''match_type_number'')
                \<and> \<not> ci_equal (category_text kvs) ''test'')"
proof (cases "map_of kvs ''match_type''")
  case None
  then show ?thesis
    by (simp add: category_rejects_falsy truthy_field_def category_text_def ci_equal_test)
next
  case (Some v)
  with assms consider "v = JNull" | s where "v = JStr s"
    by (cases v) (auto simp: opt_field_def)
  then show ?thesis
  proof cases
    case 1
    with Some show ?thesis
      by (simp add: category_rejects_falsy truthy_field_def category_text_def ci_equal_test)
  next
    case 2
    with Some show ?thesis
      by (simp add: category_rejects_str truthy_field_def category_text_def ci_equal_test)
  qed
qed

lemma ci_equal_TeSt: "ci_equal ''TeSt'' ''test''"
  by code_simp

lemma ci_equal_ODI: "\<not> ci_equal ''ODI'' ''test''"
  by code_simp

lemma ci_equal_empty: "\<not> ci_equal [] ''test''"
  by code_simp

lemma claimed_agrees_str:
  assumes "map_of kvs ''match_type'' = Some (JStr s)" and "s \<noteq> []"
  shows "category_rejects (JObj kvs) = Inr (claimed_category_rejects kvs)"
  using assms
  by (simp add: category_rejects_str claimed_category_rejects_def has_field_def ci_equal_test)

lemma claimed_agrees_none:
  assumes "map_of kvs ''match_type'' = None" and "map_of kvs ''match_type_number'' = None"
  shows "category_rejects (JObj kvs) = Inr (claimed_category_rejects kvs)"
  using assms
  by (simp add: category_rejects_falsy truthy_field_def claimed_category_rejects_def has_field_def)

text \<open>
  The category check as the specification words it is not what line 34 computes. A
  mapping with a \<^verbatim>\<open>match_type_number\<close> and no \<^verbatim>\<open>match_type\<close> is rejected by the code,
  though it has no category; a mapping whose only category field is an empty
  \<^verbatim>\<open>match_type\<close> passes the code, though its category is present and is not
  \<^verbatim>\<open>test\<close>.
\<close>

theorem category_check_counterexample:
  "category_rejects (JObj [(''match_type_number'', JInt 7)]) = Inr True
   \<and> claimed_category_rejects [(''match_type_number'', JInt 7)] = False
   \<and> is_ind_eng_test
        (JObj [(''match_type_number'', JInt 7), (''teams'', JArr [JStr ''India'', JStr ''England''])])
       = Inr False
   \<and> claimed_category_rejects
        [(''match_type_number'', JInt 7), (''teams'', JArr [JStr ''India'', JStr ''England''])]
       = False
   \<and> category_rejects (JObj [(''match_type'', JStr [])]) = Inr False
   \<and> claimed_category_rejects [(''match_type'', JStr [])] = True"
proof -
  have 1: "category_rejects (JObj [(''match_type_number'', JInt 7)]) = Inr True"
    by (simp add: category_rejects_falsy truthy_field_def)
  have 2: "claimed_category_rejects [(''match_type_number'', JInt 7)] = False"
    by (simp add: claimed_category_rejects_def)
  have "category_rejects
          (JObj [(''match_type_number'', JInt 7), (''teams'', JArr [JStr ''India'', JStr ''England''])])
        = Inr True"
    by (simp add: category_rejects_falsy truthy_field_def)
  then have 3: "is_ind_eng_test
        (JObj [(''match_type_number'', JInt 7), (''teams'', JArr [JStr ''India'', JStr ''England''])])
       = Inr False"
    by (simp add: is_ind_eng_test_def)
  have 4: "claimed_category_rejects
        [(''match_type_number'', JInt 7), (''teams'', JArr [JStr ''India'', JStr ''England''])]
       = False"
    by (simp add: claimed_category_rejects_def)
  have 5: "category_rejects (JObj [(''match_type'', JStr [])]) = Inr False"
    by (simp add: category_rejects_str truthy_field_def)
  have 6: "claimed_category_rejects [(''match_type'', JStr [])] = True"
    by (simp add: claimed_category_rejects_def has_field_def ci_equal_empty)
  from 1 2 3 4 5 6 show ?thesis by (intro conjI)
qed

text \<open>
  C2, amended. On an info mapping whose \<^verbatim>\<open>match_type\<close>, when given, is a string, the
  category check (the condition on line 34) rejects exactly when \<^verbatim>\<open>match_type\<close> or
  \<^verbatim>\<open>match_type_number\<close> has a truthy value and the text of \<^verbatim>\<open>match_type\<close>, taken as
  empty when \<^verbatim>\<open>match_type\<close> is missing, is not \<^verbatim>\<open>test\<close> without regard to case. So a
  mapping with a truthy \<^verbatim>\<open>match_type_number\<close> and no \<^verbatim>\<open>match_type\<close> is rejected, and a
  mapping with an empty \<^verbatim>\<open>match_type\<close> and no truthy \<^verbatim>\<open>match_type_number\<close> passes. A
  rejection makes \<^verbatim>\<open>is_ind_eng_test\<close> return \<^verbatim>\<open>False\<close>; a mapping with neither field
  is not rejected. Where \<^verbatim>\<open>match_type\<close> is a non-empty string, and where neither field
  is given, the check is the one the specification words.
\<close>

theorem category_check:
  assumes "opt_field is_str kvs ''match_type''"
  shows "category_rejects (JObj kvs) =
           Inr ((truthy_field kvs ''match_type'' \<or> truthy_field kvs ''match_type_number'')
                \<and> \<not> ci_equal (category_text kvs) ''test'')
         \<and> (category_rejects (JObj kvs) = Inr True \<longrightarrow> is_ind_eng_test (JObj kvs) = Inr False)
         \<and> (map_of kvs ''match_type'' = None \<and> map_of kvs ''match_type_number'' = None
              \<longrightarrow> category_rejects (JObj kvs) = Inr False)
         \<and> (map_of kvs ''match_type'' = None \<and> truthy_field kvs ''match_type_number''
              \<longrightarrow> category_rejects (JObj kvs) = Inr True)
         \<and> (map_of kvs ''match_type'' = Some (JStr []) \<and> \<not> truthy_field kvs ''match_type_number''
              \<longrightarrow> category_rejects (JObj kvs) = Inr False)
         \<and> ((\<exists>s. map_of kvs ''match_type'' = Some (JStr s) \<and> s \<noteq> [])
              \<longrightarrow> category_rejects (JObj kvs) = Inr (claimed_category_rejects kvs))"
proof (intro conjI impI)
  show "category_rejects (JObj kvs) =
           Inr ((truthy_field kvs ''match_type'' \<or> truthy_field kvs ''match_type_number'')
                \<and> \<not> ci_equal (category_text kvs) ''test'')"
    using assms by (rule category_rejects_eq)
next
  assume "category_rejects (JObj kvs) = Inr True"
  then show "is_ind_eng_test (JObj kvs) = Inr False"
    by (simp add: is_ind_eng_test_def)
next
  assume "map_of kvs ''match_type'' = None \<and> map_of kvs ''match_type_number'' = None"
  then show "category_rejects (JObj kvs) = Inr False"
    by (simp add: category_rejects_falsy truthy_field_def)
next
  assume "map_of kvs ''match_type'' = None \<and> truthy_field kvs ''match_type_number''"
  then show "category_rejects (JObj kvs) = Inr True"
    by (simp add: category_rejects_falsy)
next
  assume "map_of kvs ''match_type'' = Some (JStr []) \<and> \<not> truthy_field kvs ''match_type_number''"
  then show "category_rejects (JObj kvs) = Inr False"
    by (simp add: category_rejects_str)
next
  assume "\<exists>s. map_of kvs ''match_type'' = Some (JStr s) \<and> s \<noteq> []"
  then show "category_rejects (JObj kvs) = Inr (claimed_category_rejects kvs)"
    by (auto simp: claimed_agrees_str)
qed

theorem category_check_witness:
  "opt_field is_str [(''match_type'', JStr ''ODI''), (''match_type_number'', JInt 7)] ''match_type''
   \<and> category_rejects (JObj [(''match_type'', JStr ''ODI''), (''match_type_number'', JInt 7)]) = Inr True
   \<and> claimed_category_rejects [(''match_type'', JStr ''ODI''), (''match_type_number'', JInt 7)]
   \<and> is_ind_eng_test (JObj [(''match_type'', JStr ''ODI''), (''match_type_number'', JInt 7)]) = Inr False
   \<and> opt_field is_str [(''match_type'', JStr ''TeSt'')] ''match_type''
   \<and> category_rejects (JObj [(''match_type'', JStr ''TeSt'')]) = Inr False
   \<and> opt_field is_str [(''match_type_number'', JInt 7)] ''match_type''
   \<and> truthy_field [(''match_type_number'', JInt 7)] ''match_type_number''
   \<and> category_rejects (JObj [(''match_type_number'', JInt 7)]) = Inr True
   \<and> opt_field is_str [(''match_type'', JStr [])] ''match_type''
   \<and> category_rejects (JObj [(''match_type'', JStr [])]) = Inr False
   \<and> opt_field is_str [] ''match_type''
   \<and> category_rejects (JObj []) = Inr False"
proof -
  have a: "opt_field is_str [(''match_type'', JStr ''ODI''), (''match_type_number'', JInt 7)] ''match_type''"
    and b: "opt_field is_str [(''match_type'', JStr ''TeSt'')] ''match_type''"
    and c: "opt_field is_str [(''match_type_number'', JInt 7)] ''match_type''"
    and d: "opt_field is_str [] ''match_type''"
    and e: "opt_field is_str [(''match_type'', JStr [])] ''match_type''"
    by (simp_all add: opt_field_def)
  have t: "truthy_field [(''match_type_number'', JInt 7)] ''match_type_number''"
    by (simp add: truthy_field_def)
  have cl: "claimed_category_rejects [(''match_type'', JStr ''ODI''), (''match_type_number'', JInt 7)]"
    by (simp add: claimed_category_rejects_def has_field_def ci_equal_ODI)
  show ?thesis
    using a b c d e t cl category_check [OF a] category_check [OF b] category_check [OF c]
      category_check [OF d] category_check [OF e]
    by (simp add: truthy_field_def category_text_def ci_equal_TeSt ci_equal_ODI ci_equal_empty)
qed

lemma teams_value:
  assumes "opt_field hashable_list kvs ''teams''"
  shows "bind (get (JObj kvs) ''teams'') (\<lambda>t. py_set (py_or t (JArr []))) = Inr (set (declared_teams kvs))"
proof (cases "map_of kvs ''teams''")
  case None
  then show ?thesis
    by (simp add: get_JObj py_or_def py_set_def declared_teams_def)
next
  case (Some v)
  with assms consider "v = JNull" | xs where "v = JArr xs" "list_all hashable xs"
    by (cases v) (auto simp: opt_field_def)
  then show ?thesis
  proof cases
    case 1
    with Some show ?thesis
      by (simp add: get_JObj py_or_def py_set_def declared_teams_def)
  next
    case 2
    with Some show ?thesis
      by (cases xs) (simp_all add: get_JObj py_or_def py_set_def declared_teams_def)
  qed
qed

text \<open>
  C5. On an info mapping that the category check does not reject and whose \<^verbatim>\<open>teams\<close>,
  when given, is a list of hashable values, \<^verbatim>\<open>is_ind_eng_test\<close> returns whether both
  \<^verbatim>\<open>India\<close> and \<^verbatim>\<open>England\<close> are among the declared teams: membership is equality of
  strings, the order and any further teams do not matter.
\<close>

theorem team_check:
  assumes "category_rejects (JObj kvs) = Inr False"
    and "opt_field hashable_list kvs ''teams''"
  shows "is_ind_eng_test (JObj kvs) =
           Inr ({JStr ''India'', JStr ''England''} \<subseteq> set (declared_teams kvs))"
proof -
  have "is_ind_eng_test (JObj kvs) =
          bind (bind (get (JObj kvs) ''teams'') (\<lambda>t. py_set (py_or t (JArr []))))
            (\<lambda>teams. Inr ({JStr ''India'', JStr ''England''} \<subseteq> teams))"
    using assms(1) by (simp add: is_ind_eng_test_def get_JObj)
  then show ?thesis
    using teams_value [OF assms(2)] by simp
qed

theorem team_check_witness:
  "category_rejects (JObj [(''teams'', JArr [JStr ''England'', JStr ''Ireland'', JStr ''India''])]) = Inr False
   \<and> opt_field hashable_list [(''teams'', JArr [JStr ''England'', JStr ''Ireland'', JStr ''India''])] ''teams''
   \<and> is_ind_eng_test (JObj [(''teams'', JArr [JStr ''England'', JStr ''Ireland'', JStr ''India''])]) = Inr True
   \<and> category_rejects (JObj [(''teams'', JArr [JStr ''india'', JStr ''England''])]) = Inr False
   \<and> opt_field hashable_list [(''teams'', JArr [JStr ''india'', JStr ''England''])] ''teams''
   \<and> is_ind_eng_test (JObj [(''teams'', JArr [JStr ''india'', JStr ''England''])]) = Inr False"
proof -
  have a: "category_rejects (JObj [(''teams'', JArr [JStr ''England'', JStr ''Ireland'', JStr ''India''])]) = Inr False"
    and b: "category_rejects (JObj [(''teams'', JArr [JStr ''india'', JStr ''England''])]) = Inr False"
    by (simp_all add: category_rejects_falsy truthy_field_def)
  have c: "opt_field hashable_list [(''teams'', JArr [JStr ''England'', JStr ''Ireland'', JStr ''India''])] ''teams''"
    and d: "opt_field hashable_list [(''teams'', JArr [JStr ''india'', JStr ''England''])] ''teams''"
    by (simp_all add: opt_field_def)
  show ?thesis
    using a b c d team_check [OF a c] team_check [OF b d]
    by (simp add: declared_teams_def)
qed

lemma window_loop_ex:
  "window_loop str fiso ds = (\<exists>d \<in> set ds. parses_in_window str fiso d)"
  by (induction ds) (auto simp: parses_in_window_def in_window_def split: option.splits)

lemma window_loop_filter:
  "window_loop str fiso (filter (parses str fiso) ds) = window_loop str fiso ds"
  by (induction ds) (auto simp: parses_def split: option.splits)

lemma dates_value:
  assumes "opt_field is_arr kvs ''dates''"
  shows "bind (get (JObj kvs) ''dates'') (\<lambda>v. py_iter (py_or v (JArr []))) = Inr (declared_dates kvs)"
proof (cases "map_of kvs ''dates''")
  case None
  then show ?thesis
    by (simp add: get_JObj py_or_def declared_dates_def)
next
  case (Some v)
  with assms consider "v = JNull" | xs where "v = JArr xs"
    by (cases v) (auto simp: opt_field_def)
  then show ?thesis
  proof cases
    case 1
    with Some show ?thesis
      by (simp add: get_JObj py_or_def declared_dates_def)
  next
    case 2
    with Some show ?thesis
      by (cases xs) (simp_all add: get_JObj py_or_def declared_dates_def)
  qed
qed

lemma within_series_window_eq:
  assumes "opt_field is_arr kvs ''dates''"
  shows "within_series_window str fiso (JObj kvs) = Inr (window_loop str fiso (declared_dates kvs))"
proof -
  have "within_series_window str fiso (JObj kvs) =
          bind (bind (get (JObj kvs) ''dates'') (\<lambda>v. py_iter (py_or v (JArr []))))
            (\<lambda>ds. Inr (window_loop str fiso ds))"
    by (simp add: within_series_window_def get_JObj)
  then show ?thesis
    using dates_value [OF assms] by simp
qed

lemma in_window_bounds:
  "in_window START" "in_window END" "\<not> in_window (Date 2025 5 31)" "\<not> in_window (Date 2025 9 1)"
  by (simp_all add: in_window_def date_le_def START_def END_def)

lemma window_loop_none:
  "\<forall>d \<in> set ds. \<not> parses str fiso d \<Longrightarrow> window_loop str fiso ds = False"
  by (induction ds) (auto simp: parses_def)

text \<open>
  C4. On an info mapping whose \<^verbatim>\<open>dates\<close>, when given, is a list, \<^verbatim>\<open>within_series_window\<close>
  returns whether some declared date parses as a calendar date of the closed window from
  START to END (both ends are in it). Dates that do not parse are skipped: the result is
  that of the loop over the dates that parse. With no dates, or with none that parses,
  the result is \<^verbatim>\<open>False\<close>.
\<close>

theorem date_window_check:
  assumes "opt_field is_arr kvs ''dates''"
  shows "within_series_window str fiso (JObj kvs) =
           Inr (\<exists>d \<in> set (declared_dates kvs). parses_in_window str fiso d)
         \<and> within_series_window str fiso (JObj kvs) =
             Inr (window_loop str fiso (filter (parses str fiso) (declared_dates kvs)))
         \<and> (declared_dates kvs = [] \<longrightarrow> within_series_window str fiso (JObj kvs) = Inr False)
         \<and> ((\<forall>d \<in> set (declared_dates kvs). \<not> parses str fiso d)
              \<longrightarrow> within_series_window str fiso (JObj kvs) = Inr False)
         \<and> in_window START \<and> in_window END"
proof -
  note eq = within_series_window_eq [OF assms, of str fiso]
  have 1: "within_series_window str fiso (JObj kvs) =
             Inr (\<exists>d \<in> set (declared_dates kvs). parses_in_window str fiso d)"
    by (simp only: eq window_loop_ex)
  have 2: "within_series_window str fiso (JObj kvs) =
             Inr (window_loop str fiso (filter (parses str fiso) (declared_dates kvs)))"
    by (simp only: eq window_loop_filter)
  have 3: "declared_dates kvs = [] \<longrightarrow> within_series_window str fiso (JObj kvs) = Inr False"
    by (simp add: eq)
  have 4: "(\<forall>d \<in> set (declared_dates kvs). \<not> parses str fiso d)
              \<longrightarrow> within_series_window str fiso (JObj kvs) = Inr False"
    by (simp add: eq window_loop_none)
  from 1 2 3 4 in_window_bounds(1,2) show ?thesis by blast
qed

lemma sample_dates:
  "parses_in_window sample_str sample_fromisoformat (JStr ''2025-06-20'')"
  "\<not> parses_in_window sample_str sample_fromisoformat (JStr ''2025-09-01'')"
  "\<not> parses_in_window sample_str sample_fromisoformat (JStr ''2024-01-01'')"
  "\<not> parses_in_window sample_str sample_fromisoformat (JStr ''soon'')"
  "\<not> parses sample_str sample_fromisoformat (JStr ''soon'')"
  by (simp_all add: parses_in_window_def parses_def sample_fromisoformat_def in_window_def
        date_le_def START_def END_def)

theorem date_window_check_witness:
  "opt_field is_arr [(''dates'', JArr [JStr ''soon'', JStr ''2024-01-01'', JStr ''2025-06-20''])] ''dates''
   \<and> within_series_window sample_str sample_fromisoformat
         (JObj [(''dates'', JArr [JStr ''soon'', JStr ''2024-01-01'', JStr ''2025-06-20''])]) = Inr True
   \<and> opt_field is_arr [(''dates'', JArr [JStr ''2025-09-01'', JStr ''2024-01-01''])] ''dates''
   \<and> within_series_window sample_str sample_fromisoformat
         (JObj [(''dates'', JArr [JStr ''2025-09-01'', JStr ''2024-01-01''])]) = Inr False
   \<and> opt_field is_arr [(''dates'', JArr [JStr ''soon''])] ''dates''
   \<and> list_all (\<lambda>d. \<not> parses sample_str sample_fromisoformat d)
         (declared_dates [(''dates'', JArr [JStr ''soon''])])
   \<and> within_series_window sample_str sample_fromisoformat (JObj [(''dates'', JArr [JStr ''soon''])]) = Inr False
   \<and> opt_field is_arr [] ''dates''
   \<and> declared_dates [] = []
   \<and> within_series_window sample_str sample_fromisoformat (JObj []) = Inr False"
proof -
  have a: "opt_field is_arr [(''dates'', JArr [JStr ''soon'', JStr ''2024-01-01'', JStr ''2025-06-20''])] ''dates''"
    and b: "opt_field is_arr [(''dates'', JArr [JStr ''2025-09-01'', JStr ''2024-01-01''])] ''dates''"
    and c: "opt_field is_arr [(''dates'', JArr [JStr ''soon''])] ''dates''"
    and d: "opt_field is_arr [] ''dates''"
    by (simp_all add: opt_field_def)
  show ?thesis
    using a b c d
      date_window_check [OF a, of sample_str sample_fromisoformat]
      date_window_check [OF b, of sample_str sample_fromisoformat]
      date_window_check [OF c, of sample_str sample_fromisoformat]
      date_window_check [OF d, of sample_str sample_fromisoformat]
    by (simp add: declared_dates_def sample_dates)
qed

section \<open>Further properties of the Python operations\<close>

lemma get_obj: "is_obj v \<Longrightarrow> get v k = Inr (member v k JNull)"
  by (cases v) (simp_all add: get_def)

lemma get_default_obj: "is_obj v \<Longrightarrow> get_default v k dflt = Inr (member v k dflt)"
  by (cases v) simp_all

lemma get_default_Inr: "get_default v k dflt = Inr x \<Longrightarrow> is_obj v \<and> x = member v k dflt"
  by (cases v) auto

lemma get_Inr: "get v k = Inr x \<Longrightarrow> is_obj v \<and> x = member v k JNull"
  by (simp add: get_def get_default_Inr)

lemma member_omits: "omits v k \<Longrightarrow> member v k dflt = dflt"
  by (cases v) simp_all

lemma py_or_falsy: "\<not> truthy v \<Longrightarrow> py_or v w = w"
  by (simp add: py_or_def)

lemma py_or_truthy: "truthy v \<Longrightarrow> py_or v w = v"
  by (simp add: py_or_def)

lemma py_iter_list: "\<not> truthy v \<or> is_arr v \<Longrightarrow> py_iter (py_or v (JArr [])) = Inr (entries v)"
  by (cases v) (auto simp: py_or_def)

lemma all_strs_text: "list_all is_str vs \<Longrightarrow> all_strs vs = Inr (map text_of vs)"
proof (induction vs)
  case Nil
  then show ?case by simp
next
  case (Cons v vs)
  then show ?case by (cases v) simp_all
qed

lemma all_strs_Inr: "all_strs vs = Inr ss \<Longrightarrow> list_all is_str vs \<and> ss = map text_of vs"
proof (induction vs arbitrary: ss)
  case Nil
  then show ?case by simp
next
  case (Cons v vs)
  then show ?case by (cases v) (auto split: sum.splits)
qed

lemma join_Inr: "join sep vs = Inr s \<Longrightarrow> list_all is_str vs \<and> s = join_strs sep (map text_of vs)"
  by (auto simp: join_def bind_eq_Inr dest: all_strs_Inr)

lemma join_text: "list_all is_str vs \<Longrightarrow> join sep vs = Inr (join_strs sep (map text_of vs))"
  by (simp add: join_def all_strs_text)

lemma teams_text:
  "\<not> truthy v \<or> str_list v \<Longrightarrow>
   bind (py_iter (py_or v (JArr []))) (join '','') = Inr (join_strs '','' (map text_of (entries v)))"
  by (cases v) (auto simp: py_or_def join_text)

section \<open>Properties of the wicket fields\<close>

lemma first_wicket_falsy: "\<not> truthy v \<Longrightarrow> first_wicket (py_or v (JArr [])) k = Inr JNull"
  by (simp add: first_wicket_def py_or_def)

lemma first_wicket_list:
  "is_obj w \<Longrightarrow> first_wicket (py_or (JArr (w # ws)) (JArr [])) k = Inr (member w k JNull)"
  by (simp add: first_wicket_def py_or_def get_obj)

lemma first_wicket_Inr:
  assumes "first_wicket (py_or v (JArr [])) k = Inr x"
  shows "(\<not> truthy v \<and> x = JNull) \<or> (\<exists>w ws. v = JArr (w # ws) \<and> is_obj w \<and> x = member w k JNull)"
proof (cases "truthy v")
  case False
  with assms show ?thesis by (simp add: first_wicket_falsy)
next
  case True
  with assms have *: "bind (item0 v) (\<lambda>w. get w k) = Inr x"
    by (simp add: first_wicket_def py_or_def)
  then obtain w where w: "item0 v = Inr w" "get w k = Inr x"
    by (auto simp: bind_eq_Inr)
  from w(2) have obj: "is_obj w" "x = member w k JNull"
    by (auto dest: get_Inr)
  from w(1) obj(1) have "\<exists>ws. v = JArr (w # ws)"
    by (cases v rule: item0.cases) auto
  with obj show ?thesis by blast
qed

lemma fielder_names_wf:
  "list_all wf_wicket ws \<Longrightarrow>
   fielder_names ws = Inr (map first_fielder_name (filter has_fielders ws))
   \<and> list_all is_str (map first_fielder_name (filter has_fielders ws))"
proof (induction ws)
  case Nil
  then show ?case by simp
next
  case (Cons w ws)
  then have ih: "fielder_names ws = Inr (map first_fielder_name (filter has_fielders ws))"
      "list_all is_str (map first_fielder_name (filter has_fielders ws))"
    and w: "is_obj w" "\<not> truthy (member w ''fielders'' JNull) \<or> named_first (member w ''fielders'' JNull)"
    by (simp_all add: wf_wicket_def)
  show ?case
  proof (cases "truthy (member w ''fielders'' JNull)")
    case False
    then have "\<not> has_fielders w" by (simp add: has_fielders_def)
    with False ih w(1) show ?thesis
      by (simp add: get_obj)
  next
    case True
    then have hf: "has_fielders w" by (simp add: has_fielders_def)
    from True w(2) have "named_first (member w ''fielders'' JNull)" by simp
    then obtain f fs where f: "member w ''fielders'' JNull = JArr (f # fs)" "is_obj f"
        "is_str (member f ''name'' (JStr []))"
      by (cases "member w ''fielders'' JNull" rule: named_first.cases) auto
    from w(1) f(1) have m: "member w ''fielders'' (JArr [JObj []]) = JArr (f # fs)"
      by (cases w) (auto split: option.splits)
    from f have nm: "first_fielder_name w = member f ''name'' (JStr [])"
      by (simp add: first_fielder_name_def)
    from True hf ih w(1) f m nm show ?thesis
      by (simp add: get_obj get_default_obj)
  qed
qed

lemma fielder_names_Inr:
  "fielder_names ws = Inr ns \<Longrightarrow> ns = map first_fielder_name (filter has_fielders ws)"
proof (induction ws arbitrary: ns)
  case Nil
  then show ?case by simp
next
  case (Cons w ws)
  from Cons.prems obtain c where c: "get w ''fielders'' = Inr c"
    by (cases "get w ''fielders''") auto
  then have w: "is_obj w" "c = member w ''fielders'' JNull"
    by (auto dest: get_Inr)
  show ?case
  proof (cases "truthy c")
    case False
    with w have "\<not> has_fielders w" by (simp add: has_fielders_def)
    with False Cons c show ?thesis
      by simp
  next
    case True
    with w have hf: "has_fielders w" by (simp add: has_fielders_def)
    from True Cons.prems c obtain n ns' where
      n: "bind (get_default w ''fielders'' (JArr [JObj []])) (\<lambda>fs.
            bind (item0 fs) (\<lambda>f. get_default f ''name'' (JStr ''''))) = Inr n"
      and ns': "fielder_names ws = Inr ns'" and ns: "ns = n # ns'"
      by (auto split: sum.splits)
    from n obtain fs f where fs: "get_default w ''fielders'' (JArr [JObj []]) = Inr fs"
      and f: "item0 fs = Inr f" and nm: "get_default f ''name'' (JStr '''') = Inr n"
      by (auto simp: bind_eq_Inr)
    from w True fs have fs_eq: "fs = member w ''fielders'' JNull"
      by (cases w) (auto split: option.splits)
    from nm have fo: "is_obj f" "n = member f ''name'' (JStr [])"
      by (auto dest: get_default_Inr)
    from f fo(1) have "first_entry fs = f"
      by (cases fs rule: item0.cases) auto
    with fo fs_eq have "n = first_fielder_name w"
      by (simp add: first_fielder_name_def)
    with Cons.IH [OF ns'] ns hf show ?thesis
      by simp
  qed
qed

lemma fielders_value_falsy: "\<not> truthy v \<Longrightarrow> fielders_value (py_or v (JArr [])) = Inr JNull"
  by (simp add: fielders_value_def py_or_def)

lemma fielders_value_wf:
  "list_all wf_wicket (w # ws) \<Longrightarrow>
   fielders_value (py_or (JArr (w # ws)) (JArr [])) = Inr (JStr (fielder_text (w # ws)))"
  using fielder_names_wf [of "w # ws"]
  by (simp add: fielders_value_def py_or_def join_text fielder_text_def comp_def del: fielder_names.simps)

lemma fielders_value_Inr:
  assumes "fielders_value (py_or (JArr (w # ws)) (JArr [])) = Inr x"
  shows "x = JStr (fielder_text (w # ws))"
proof -
  from assms obtain ns s where ns: "fielder_names (w # ws) = Inr ns"
    and s: "join '','' ns = Inr s" and x: "x = JStr s"
    by (auto simp: fielders_value_def py_or_def bind_eq_Inr simp del: fielder_names.simps)
  from fielder_names_Inr [OF ns] join_Inr [OF s] x show ?thesis
    by (simp add: fielder_text_def comp_def)
qed

lemma wickets_total:
  assumes "wf_wickets v"
  shows "\<exists>x. first_wicket (py_or v (JArr [])) k = Inr x"
    and "\<exists>x. fielders_value (py_or v (JArr [])) = Inr x"
proof -
  have "\<not> truthy v \<or> (\<exists>w ws. v = JArr (w # ws) \<and> list_all wf_wicket (w # ws))"
  proof (cases v)
    case (JArr xs)
    with assms show ?thesis by (cases xs) simp_all
  qed (use assms in simp_all)
  then consider "\<not> truthy v" | w ws where "v = JArr (w # ws)" "list_all wf_wicket (w # ws)"
    by blast
  then have "(\<exists>x. first_wicket (py_or v (JArr [])) k = Inr x)
      \<and> (\<exists>x. fielders_value (py_or v (JArr [])) = Inr x)"
  proof cases
    case 1
    then show ?thesis by (simp add: first_wicket_falsy fielders_value_falsy)
  next
    case 2
    then have "is_obj w" by (simp add: wf_wicket_def)
    with 2 show ?thesis
      using fielders_value_wf [OF 2(2)] by (simp add: first_wicket_list)
  qed
  then show "\<exists>x. first_wicket (py_or v (JArr [])) k = Inr x"
    and "\<exists>x. fielders_value (py_or v (JArr [])) = Inr x" by blast+
qed

section \<open>Properties of one row\<close>

lemma delivery_row_Inr:
  assumes "delivery_row str m n team over_no d = Inr b"
  shows "is_obj d"
    and "match_id b = v_match_id m" and "season b = v_season m"
    and "venue b = v_venue m" and "city b = v_city m"
    and "innings b = n" and "batting_team b = team" and "over b = over_no"
    and "ball_label b = member d ''ball'' JNull" and "batter b = member d ''batter'' JNull"
    and "bowler b = member d ''bowler'' JNull" and "non_striker b = member d ''non_striker'' JNull"
    and "runs_batter b = member (runs_of d) ''batter'' (JInt 0)"
    and "runs_extras b = member (runs_of d) ''extras'' (JInt 0)"
    and "runs_total b = member (runs_of d) ''total'' (JInt 0)"
    and "extra_byes b = member (extras_of d) ''byes'' (JInt 0)"
    and "extra_legbyes b = member (extras_of d) ''legbyes'' (JInt 0)"
    and "extra_wides b = member (extras_of d) ''wides'' (JInt 0)"
    and "extra_noballs b = member (extras_of d) ''noballs'' (JInt 0)"
    and "extra_penalty b = member (extras_of d) ''penalty'' (JInt 0)"
    and "first_wicket (py_or (member d ''wickets'' (JArr [])) (JArr [])) ''kind'' = Inr (wicket_kind b)"
    and "first_wicket (py_or (member d ''wickets'' (JArr [])) (JArr [])) ''player_out'' = Inr (wicket_player_out b)"
    and "fielders_value (py_or (member d ''wickets'' (JArr [])) (JArr [])) = Inr (wicket_fielders b)"
  using assms
  by (auto simp: delivery_row_def bind_eq_Inr runs_of_def extras_of_def dest!: get_Inr get_default_Inr)

lemma delivery_row_total:
  assumes "wf_vars m" and "wf_delivery d"
  shows "\<exists>b. delivery_row str m n team over_no d = Inr b"
proof -
  from assms(2) have d: "is_obj d" and r: "is_obj (member d ''runs'' (JObj []))"
    and e: "is_obj (py_or (member d ''extras'' (JObj [])) (JObj []))"
    and w: "wf_wickets (member d ''wickets'' (JArr []))"
    by (auto simp: wf_delivery_def py_or_def)
  from assms(1) have ds: "py_iter (py_or (v_dates m) (JArr [])) = Inr (entries (v_dates m))"
    and ts: "bind (py_iter (py_or (v_teams m) (JArr []))) (join '','')
               = Inr (join_strs '','' (map text_of (entries (v_teams m))))"
    by (simp_all add: wf_vars_def py_iter_list teams_text)
  from wickets_total [OF w] obtain k p f where
    "first_wicket (py_or (member d ''wickets'' (JArr [])) (JArr [])) ''kind'' = Inr k"
    "first_wicket (py_or (member d ''wickets'' (JArr [])) (JArr [])) ''player_out'' = Inr p"
    "fielders_value (py_or (member d ''wickets'' (JArr [])) (JArr [])) = Inr f"
    by blast
  with d r e ds ts show ?thesis
    by (simp add: delivery_row_def get_obj get_default_obj)
qed

lemma wickets_cases:
  assumes "delivery_row str m n team over_no d = Inr b"
  shows "(\<not> truthy (member d ''wickets'' (JArr [])) \<and> wicket_entries d = [])
         \<or> (\<exists>w ws. member d ''wickets'' (JArr []) = JArr (w # ws) \<and> is_obj w
                    \<and> wicket_entries d = w # ws)"
proof -
  from delivery_row_Inr(21) [OF assms] first_wicket_Inr
  have "\<not> truthy (member d ''wickets'' (JArr []))
        \<or> (\<exists>w ws. member d ''wickets'' (JArr []) = JArr (w # ws) \<and> is_obj w)"
    by blast
  then show ?thesis
  proof
    assume f: "\<not> truthy (member d ''wickets'' (JArr []))"
    then have "entries (member d ''wickets'' (JArr [])) = []"
      by (cases "member d ''wickets'' (JArr [])") simp_all
    with f show ?thesis by (simp add: wicket_entries_def)
  next
    assume "\<exists>w ws. member d ''wickets'' (JArr []) = JArr (w # ws) \<and> is_obj w"
    then show ?thesis by (auto simp: wicket_entries_def)
  qed
qed

lemma example_wf:
  "wf_vars example_vars" "wf_delivery plain_delivery" "wf_delivery sparse_delivery"
  "wf_delivery bowled_delivery" "wf_delivery double_delivery"
  by (simp_all add: wf_vars_def example_vars_def wf_delivery_def wf_wicket_def
        plain_delivery_def sparse_delivery_def bowled_delivery_def double_delivery_def)

lemma bare_wf: "wf_delivery bare_delivery"
  by (simp add: wf_delivery_def bare_delivery_def)

text \<open>
  C6. A well-formed delivery yields a row, and in every row a delivery yields, each of
  the three runs fields and the five extras fields whose subfield the runs breakdown or
  the extras breakdown omits is the integer 0.
\<close>

theorem missing_subfields_default:
  "(wf_vars m \<and> wf_delivery d \<longrightarrow> (\<exists>b. delivery_row str m n team over_no d = Inr b))
   \<and> (\<forall>b. delivery_row str m n team over_no d = Inr b \<longrightarrow>
          (omits (runs_of d) ''batter'' \<longrightarrow> runs_batter b = JInt 0)
        \<and> (omits (runs_of d) ''extras'' \<longrightarrow> runs_extras b = JInt 0)
        \<and> (omits (runs_of d) ''total'' \<longrightarrow> runs_total b = JInt 0)
        \<and> (omits (extras_of d) ''byes'' \<longrightarrow> extra_byes b = JInt 0)
        \<and> (omits (extras_of d) ''legbyes'' \<longrightarrow> extra_legbyes b = JInt 0)
        \<and> (omits (extras_of d) ''wides'' \<longrightarrow> extra_wides b = JInt 0)
        \<and> (omits (extras_of d) ''noballs'' \<longrightarrow> extra_noballs b = JInt 0)
        \<and> (omits (extras_of d) ''penalty'' \<longrightarrow> extra_penalty b = JInt 0))"
proof (intro conjI allI impI)
  assume "wf_vars m \<and> wf_delivery d"
  then show "\<exists>b. delivery_row str m n team over_no d = Inr b"
    by (simp add: delivery_row_total)
qed (simp_all add: delivery_row_Inr member_omits)

theorem missing_subfields_default_witness:
  "wf_vars example_vars \<and> wf_delivery bare_delivery
   \<and> omits (runs_of bare_delivery) ''batter'' \<and> omits (runs_of bare_delivery) ''extras''
   \<and> omits (runs_of bare_delivery) ''total''
   \<and> omits (extras_of bare_delivery) ''byes'' \<and> omits (extras_of bare_delivery) ''legbyes''
   \<and> omits (extras_of bare_delivery) ''wides'' \<and> omits (extras_of bare_delivery) ''noballs''
   \<and> omits (extras_of bare_delivery) ''penalty''
   \<and> (\<exists>b. delivery_row sample_str example_vars 1 (JStr ''India'') (JInt 0) bare_delivery = Inr b
          \<and> runs_batter b = JInt 0 \<and> runs_extras b = JInt 0 \<and> runs_total b = JInt 0
          \<and> extra_byes b = JInt 0 \<and> extra_legbyes b = JInt 0 \<and> extra_wides b = JInt 0
          \<and> extra_noballs b = JInt 0 \<and> extra_penalty b = JInt 0)
   \<and> wf_delivery sparse_delivery
   \<and> omits (runs_of sparse_delivery) ''batter'' \<and> \<not> omits (runs_of sparse_delivery) ''total''
   \<and> (\<exists>b. delivery_row sample_str example_vars 1 (JStr ''India'') (JInt 0) sparse_delivery = Inr b
          \<and> runs_batter b = JInt 0 \<and> runs_total b = JInt 4)"
proof -
  have o: "omits (runs_of bare_delivery) ''batter''" "omits (runs_of bare_delivery) ''extras''"
    "omits (runs_of bare_delivery) ''total''"
    "omits (extras_of bare_delivery) ''byes''" "omits (extras_of bare_delivery) ''legbyes''"
    "omits (extras_of bare_delivery) ''wides''" "omits (extras_of bare_delivery) ''noballs''"
    "omits (extras_of bare_delivery) ''penalty''"
    by (simp_all add: bare_delivery_def runs_of_def extras_of_def py_or_def)
  have s: "omits (runs_of sparse_delivery) ''batter''" "\<not> omits (runs_of sparse_delivery) ''total''"
    "member (runs_of sparse_delivery) ''total'' (JInt 0) = JInt 4"
    by (simp_all add: sparse_delivery_def runs_of_def)
  note inst = missing_subfields_default
    [of example_vars bare_delivery sample_str 1 "JStr ''India''" "JInt 0"]
  note inst' = missing_subfields_default
    [of example_vars sparse_delivery sample_str 1 "JStr ''India''" "JInt 0"]
  from inst example_wf(1) bare_wf obtain b where
    b: "delivery_row sample_str example_vars 1 (JStr ''India'') (JInt 0) bare_delivery = Inr b"
    by blast
  with inst o have f: "runs_batter b = JInt 0 \<and> runs_extras b = JInt 0 \<and> runs_total b = JInt 0
          \<and> extra_byes b = JInt 0 \<and> extra_legbyes b = JInt 0 \<and> extra_wides b = JInt 0
          \<and> extra_noballs b = JInt 0 \<and> extra_penalty b = JInt 0"
    by blast
  from inst' example_wf(1,3) obtain b' where
    b': "delivery_row sample_str example_vars 1 (JStr ''India'') (JInt 0) sparse_delivery = Inr b'"
    by blast
  with inst' s(1) have "runs_batter b' = JInt 0" by blast
  moreover from delivery_row_Inr(15) [OF b'] s(3) have "runs_total b' = JInt 4" by simp
  ultimately have f': "\<exists>b. delivery_row sample_str example_vars 1 (JStr ''India'') (JInt 0) sparse_delivery = Inr b
          \<and> runs_batter b = JInt 0 \<and> runs_total b = JInt 4"
    using b' by blast
  from b f have "\<exists>b. delivery_row sample_str example_vars 1 (JStr ''India'') (JInt 0) bare_delivery = Inr b
          \<and> runs_batter b = JInt 0 \<and> runs_extras b = JInt 0 \<and> runs_total b = JInt 0
          \<and> extra_byes b = JInt 0 \<and> extra_legbyes b = JInt 0 \<and> extra_wides b = JInt 0
          \<and> extra_noballs b = JInt 0 \<and> extra_penalty b = JInt 0"
    by blast
  with f' o s(1,2) example_wf(1,3) bare_wf show ?thesis by simp
qed

text \<open>
  C7. A well-formed delivery with no wicket entry yields a row, and in every row that a
  delivery with no wicket entry yields the three wicket fields are null.
\<close>

theorem no_wicket_fields_null:
  "(wf_vars m \<and> wf_delivery d \<and> wicket_entries d = [] \<longrightarrow>
      (\<exists>b. delivery_row str m n team over_no d = Inr b))
   \<and> (\<forall>b. delivery_row str m n team over_no d = Inr b \<and> wicket_entries d = [] \<longrightarrow>
          wicket_kind b = JNull \<and> wicket_player_out b = JNull \<and> wicket_fielders b = JNull)"
proof (intro conjI allI impI)
  assume "wf_vars m \<and> wf_delivery d \<and> wicket_entries d = []"
  then show "\<exists>b. delivery_row str m n team over_no d = Inr b"
    by (simp add: delivery_row_total)
next
  fix b
  assume a: "delivery_row str m n team over_no d = Inr b \<and> wicket_entries d = []"
  then have row: "delivery_row str m n team over_no d = Inr b" by simp
  from wickets_cases [OF row] a have f: "\<not> truthy (member d ''wickets'' (JArr []))"
    by auto
  from delivery_row_Inr(21,22,23) [OF row] f
  show "wicket_kind b = JNull" "wicket_player_out b = JNull" "wicket_fielders b = JNull"
    by (simp_all add: first_wicket_falsy fielders_value_falsy)
qed

theorem no_wicket_fields_null_witness:
  "wf_vars example_vars \<and> wf_delivery plain_delivery \<and> wicket_entries plain_delivery = []
   \<and> (\<exists>b. delivery_row sample_str example_vars 1 (JStr ''India'') (JInt 0) plain_delivery = Inr b
          \<and> wicket_kind b = JNull \<and> wicket_player_out b = JNull \<and> wicket_fielders b = JNull)"
proof -
  have e: "wicket_entries plain_delivery = []"
    by (simp add: wicket_entries_def plain_delivery_def)
  note inst = no_wicket_fields_null
    [of example_vars plain_delivery sample_str 1 "JStr ''India''" "JInt 0"]
  from inst example_wf(1,2) e obtain b where
    b: "delivery_row sample_str example_vars 1 (JStr ''India'') (JInt 0) plain_delivery = Inr b"
    by blast
  with inst e have "wicket_kind b = JNull \<and> wicket_player_out b = JNull \<and> wicket_fielders b = JNull"
    by blast
  with b e example_wf(1,2) show ?thesis by blast
qed

text \<open>
  C10. A well-formed delivery yields a row. In every row a delivery yields: if the
  delivery has at least one wicket entry and none of them has a fielder, the field
  \<^verbatim>\<open>wicket_fielders\<close> is the empty string, which is not null; and if the field is null,
  the delivery has no wicket entry.
\<close>

theorem fielderless_wickets_empty_string:
  "(wf_vars m \<and> wf_delivery d \<longrightarrow> (\<exists>b. delivery_row str m n team over_no d = Inr b))
   \<and> (\<forall>b. delivery_row str m n team over_no d = Inr b \<longrightarrow>
          (wicket_entries d \<noteq> [] \<and> (\<forall>w \<in> set (wicket_entries d). \<not> has_fielders w) \<longrightarrow>
             wicket_fielders b = JStr [] \<and> wicket_fielders b \<noteq> JNull)
        \<and> (wicket_fielders b = JNull \<longrightarrow> wicket_entries d = []))"
proof (intro conjI allI impI)
  assume "wf_vars m \<and> wf_delivery d"
  then show "\<exists>b. delivery_row str m n team over_no d = Inr b"
    by (simp add: delivery_row_total)
next
  fix b
  assume row: "delivery_row str m n team over_no d = Inr b"
    and a: "wicket_entries d \<noteq> [] \<and> (\<forall>w \<in> set (wicket_entries d). \<not> has_fielders w)"
  from wickets_cases [OF row] a obtain w ws where
    w: "member d ''wickets'' (JArr []) = JArr (w # ws)" "wicket_entries d = w # ws"
    by auto
  from a w(2) have "filter has_fielders (w # ws) = []"
    by (simp add: filter_empty_conv)
  then have "fielder_text (w # ws) = []"
    by (simp only: fielder_text_def list.map join_strs.simps)
  with delivery_row_Inr(23) [OF row] w(1) fielders_value_Inr
  show "wicket_fielders b = JStr []" by fastforce
  then show "wicket_fielders b \<noteq> JNull" by simp
next
  fix b
  assume row: "delivery_row str m n team over_no d = Inr b"
    and null: "wicket_fielders b = JNull"
  show "wicket_entries d = []"
  proof (rule ccontr)
    assume "wicket_entries d \<noteq> []"
    with wickets_cases [OF row] obtain w ws where
      w: "member d ''wickets'' (JArr []) = JArr (w # ws)"
      by auto
    with delivery_row_Inr(23) [OF row] fielders_value_Inr
    have "wicket_fielders b = JStr (fielder_text (w # ws))" by fastforce
    with null show False by simp
  qed
qed

theorem fielderless_wickets_empty_string_witness:
  "wf_vars example_vars \<and> wf_delivery bowled_delivery
   \<and> wicket_entries bowled_delivery \<noteq> []
   \<and> list_all (\<lambda>w. \<not> has_fielders w) (wicket_entries bowled_delivery)
   \<and> (\<exists>b. delivery_row sample_str example_vars 1 (JStr ''India'') (JInt 0) bowled_delivery = Inr b
          \<and> wicket_fielders b = JStr [] \<and> wicket_fielders b \<noteq> JNull
          \<and> wicket_kind b = JStr ''bowled'')
   \<and> wf_delivery plain_delivery
   \<and> (\<exists>b. delivery_row sample_str example_vars 1 (JStr ''India'') (JInt 0) plain_delivery = Inr b
          \<and> wicket_fielders b = JNull \<and> wicket_entries plain_delivery = [])"
proof -
  have e: "wicket_entries bowled_delivery \<noteq> []"
    "\<forall>w \<in> set (wicket_entries bowled_delivery). \<not> has_fielders w"
    by (simp_all add: wicket_entries_def bowled_delivery_def has_fielders_def)
  note inst = fielderless_wickets_empty_string
    [of example_vars bowled_delivery sample_str 1 "JStr ''India''" "JInt 0"]
  note inst' = fielderless_wickets_empty_string
    [of example_vars plain_delivery sample_str 1 "JStr ''India''" "JInt 0"]
  from inst example_wf(1,4) obtain b where
    b: "delivery_row sample_str example_vars 1 (JStr ''India'') (JInt 0) bowled_delivery = Inr b"
    by blast
  with inst e have f: "wicket_fielders b = JStr [] \<and> wicket_fielders b \<noteq> JNull"
    by blast
  have "first_wicket (py_or (member bowled_delivery ''wickets'' (JArr [])) (JArr [])) ''kind''
          = Inr (JStr ''bowled'')"
    by (simp add: bowled_delivery_def py_or_def first_wicket_def get_def)
  with delivery_row_Inr(21) [OF b] have k: "wicket_kind b = JStr ''bowled''" by simp
  from inst' example_wf(1,2) obtain b' where
    b': "delivery_row sample_str example_vars 1 (JStr ''India'') (JInt 0) plain_delivery = Inr b'"
    by blast
  have "fielders_value (py_or (member plain_delivery ''wickets'' (JArr [])) (JArr [])) = Inr JNull"
    by (simp add: plain_delivery_def fielders_value_falsy)
  with delivery_row_Inr(23) [OF b'] have n: "wicket_fielders b' = JNull" by simp
  with inst' b' have "wicket_entries plain_delivery = []" by blast
  with b' n have p: "\<exists>b. delivery_row sample_str example_vars 1 (JStr ''India'') (JInt 0) plain_delivery = Inr b
          \<and> wicket_fielders b = JNull \<and> wicket_entries plain_delivery = []"
    by blast
  from b f k have q: "\<exists>b. delivery_row sample_str example_vars 1 (JStr ''India'') (JInt 0) bowled_delivery = Inr b
          \<and> wicket_fielders b = JStr [] \<and> wicket_fielders b \<noteq> JNull
          \<and> wicket_kind b = JStr ''bowled''"
    by blast
  from p q e example_wf(1,2,4) show ?thesis by (simp add: list_all_iff)
qed

lemma fielder_text_two:
  assumes "member w1 ''fielders'' JNull = JArr [JObj [(''name'', JStr ''A'')]]"
    and "member w2 ''fielders'' JNull = JArr [JObj [(''name'', JStr ''B'')]]"
  shows "fielder_text [w1, w2] = ''A,B''"
  using assms by (simp add: fielder_text_def has_fielders_def first_fielder_name_def)

text \<open>
  C3. A well-formed delivery yields a row. In every row that a delivery with wicket
  entries \<open>w # ws\<close> yields, \<^verbatim>\<open>wicket_kind\<close> and \<^verbatim>\<open>wicket_player_out\<close> are those of the
  first entry \<open>w\<close>, and \<^verbatim>\<open>wicket_fielders\<close> is the text that joins with commas, in
  order, the name of the first fielder of each entry that has a fielder. For two entries
  whose only fielders are named A and B that text is \<^verbatim>\<open>A,B\<close>.
\<close>

theorem wicket_flattening:
  "(wf_vars m \<and> wf_delivery d \<longrightarrow> (\<exists>b. delivery_row str m n team over_no d = Inr b))
   \<and> (\<forall>b w ws. delivery_row str m n team over_no d = Inr b \<and> wicket_entries d = w # ws \<longrightarrow>
          wicket_kind b = member w ''kind'' JNull
        \<and> wicket_player_out b = member w ''player_out'' JNull
        \<and> wicket_fielders b = JStr (fielder_text (w # ws))
        \<and> fielder_text (w # ws) =
            join_strs '','' (map (\<lambda>w. text_of (first_fielder_name w)) (filter has_fielders (w # ws))))
   \<and> (\<forall>b w1 w2. delivery_row str m n team over_no d = Inr b \<and> wicket_entries d = [w1, w2]
          \<and> member w1 ''fielders'' JNull = JArr [JObj [(''name'', JStr ''A'')]]
          \<and> member w2 ''fielders'' JNull = JArr [JObj [(''name'', JStr ''B'')]] \<longrightarrow>
          wicket_fielders b = JStr ''A,B''
        \<and> wicket_kind b = member w1 ''kind'' JNull
        \<and> wicket_player_out b = member w1 ''player_out'' JNull)"
proof -
  have total: "wf_vars m \<and> wf_delivery d \<longrightarrow> (\<exists>b. delivery_row str m n team over_no d = Inr b)"
    by (simp add: delivery_row_total)
  have fields: "wicket_kind b = member w ''kind'' JNull
        \<and> wicket_player_out b = member w ''player_out'' JNull
        \<and> wicket_fielders b = JStr (fielder_text (w # ws))"
    if row: "delivery_row str m n team over_no d = Inr b" and ws: "wicket_entries d = w # ws"
    for b w ws
  proof -
    from wickets_cases [OF row] ws have v: "member d ''wickets'' (JArr []) = JArr (w # ws)"
      and obj: "is_obj w"
      by auto
    from delivery_row_Inr(21,22) [OF row] v obj
    have "wicket_kind b = member w ''kind'' JNull"
      "wicket_player_out b = member w ''player_out'' JNull"
      by (simp_all add: first_wicket_list)
    moreover from delivery_row_Inr(23) [OF row] v fielders_value_Inr
    have "wicket_fielders b = JStr (fielder_text (w # ws))" by fastforce
    ultimately show ?thesis by simp
  qed
  have two: "wicket_fielders b = JStr ''A,B''
        \<and> wicket_kind b = member w1 ''kind'' JNull
        \<and> wicket_player_out b = member w1 ''player_out'' JNull"
    if "delivery_row str m n team over_no d = Inr b \<and> wicket_entries d = [w1, w2]
          \<and> member w1 ''fielders'' JNull = JArr [JObj [(''name'', JStr ''A'')]]
          \<and> member w2 ''fielders'' JNull = JArr [JObj [(''name'', JStr ''B'')]]"
    for b w1 w2
    using that fields [of b w1 "[w2]"] fielder_text_two [of w1 w2] by simp
  from total fields two show ?thesis
    unfolding fielder_text_def by blast
qed

theorem wicket_flattening_witness:
  "wf_vars example_vars \<and> wf_delivery double_delivery
   \<and> (\<exists>w1 w2. wicket_entries double_delivery = [w1, w2]
        \<and> member w1 ''fielders'' JNull = JArr [JObj [(''name'', JStr ''A'')]]
        \<and> member w2 ''fielders'' JNull = JArr [JObj [(''name'', JStr ''B'')]])
   \<and> (\<exists>b. delivery_row sample_str example_vars 1 (JStr ''India'') (JInt 0) double_delivery = Inr b
          \<and> wicket_fielders b = JStr ''A,B''
          \<and> wicket_kind b = JStr ''run out'' \<and> wicket_player_out b = JStr ''Gill'')"
proof -
  define w1 where "w1 = JObj [(''kind'', JStr ''run out''), (''player_out'', JStr ''Gill''),
                        (''fielders'', JArr [JObj [(''name'', JStr ''A'')]])]"
  define w2 where "w2 = JObj [(''kind'', JStr ''retired out''), (''player_out'', JStr ''Pant''),
                        (''fielders'', JArr [JObj [(''name'', JStr ''B'')]])]"
  have e: "wicket_entries double_delivery = [w1, w2]"
    "member w1 ''fielders'' JNull = JArr [JObj [(''name'', JStr ''A'')]]"
    "member w2 ''fielders'' JNull = JArr [JObj [(''name'', JStr ''B'')]]"
    "member w1 ''kind'' JNull = JStr ''run out''"
    "member w1 ''player_out'' JNull = JStr ''Gill''"
    by (simp_all add: wicket_entries_def double_delivery_def w1_def w2_def)
  note inst = wicket_flattening
    [of example_vars double_delivery sample_str 1 "JStr ''India''" "JInt 0"]
  from inst example_wf(1,5) obtain b where
    b: "delivery_row sample_str example_vars 1 (JStr ''India'') (JInt 0) double_delivery = Inr b"
    by blast
  with inst e(1,2,3) have "wicket_fielders b = JStr ''A,B''
        \<and> wicket_kind b = member w1 ''kind'' JNull
        \<and> wicket_player_out b = member w1 ''player_out'' JNull"
    by blast
  with e(4,5) have "wicket_fielders b = JStr ''A,B''
          \<and> wicket_kind b = JStr ''run out'' \<and> wicket_player_out b = JStr ''Gill''"
    by simp
  with b e(1,2,3) example_wf(1,5) show ?thesis by blast
qed

section \<open>Properties of the loops of the flattener\<close>

lemma py_iter_objs: "py_iter v = Inr xs \<Longrightarrow> list_all is_obj xs \<Longrightarrow> xs = entries v"
proof (cases v)
  case (JStr s)
  assume "py_iter v = Inr xs" "list_all is_obj xs"
  with JStr show ?thesis by (cases s) auto
next
  case (JObj kvs)
  assume "py_iter v = Inr xs" "list_all is_obj xs"
  with JObj show ?thesis by (cases kvs) auto
qed auto

lemma rows_objs:
  "map Inr rows = map (delivery_row str m n team over_no) ds \<Longrightarrow> list_all is_obj ds"
proof (induction ds arbitrary: rows)
  case Nil
  then show ?case by simp
next
  case (Cons d ds)
  then obtain b rows' where "rows = b # rows'" "delivery_row str m n team over_no d = Inr b"
      "map Inr rows' = map (delivery_row str m n team over_no) ds"
    by (cases rows) auto
  with Cons.IH show ?case by (auto dest: delivery_row_Inr(1))
qed

lemma deliveries_loop_Inr:
  "deliveries_loop str m n team over_no balls ds = Inr out \<Longrightarrow>
   \<exists>rows. out = balls @ rows \<and> map Inr rows = map (delivery_row str m n team over_no) ds"
proof (induction ds arbitrary: balls)
  case Nil
  then show ?case by simp
next
  case (Cons d ds)
  from Cons.prems obtain b where b: "delivery_row str m n team over_no d = Inr b"
    and rest: "deliveries_loop str m n team over_no (balls @ [b]) ds = Inr out"
    by (auto split: sum.splits)
  from Cons.IH [OF rest] obtain rows where
    "out = (balls @ [b]) @ rows" "map Inr rows = map (delivery_row str m n team over_no) ds"
    by blast
  with b have "out = balls @ (b # rows)
      \<and> map Inr (b # rows) = map (delivery_row str m n team over_no) (d # ds)"
    by simp
  then show ?case by blast
qed

lemma deliveries_loop_total:
  "wf_vars m \<Longrightarrow> list_all wf_delivery ds \<Longrightarrow>
   \<exists>out. deliveries_loop str m n team over_no balls ds = Inr out"
proof (induction ds arbitrary: balls)
  case Nil
  then show ?case by simp
next
  case (Cons d ds)
  then obtain b where "delivery_row str m n team over_no d = Inr b"
    using delivery_row_total [of m d str n team over_no] by auto
  with Cons show ?case by simp
qed

lemma over_step_Inr:
  assumes "bind (get over_block ''over'') (\<lambda>over_no.
           bind (get_default over_block ''deliveries'' (JArr [])) (\<lambda>dv.
           bind (py_iter dv) (\<lambda>ds.
           deliveries_loop str m n team over_no balls ds))) = Inr out"
  shows "is_obj over_block
     \<and> (\<exists>rows. out = balls @ rows
          \<and> map Inr rows = map (delivery_row str m n team (member over_block ''over'' JNull))
                               (over_deliveries over_block))"
proof -
  from assms obtain over_no dv ds where g: "get over_block ''over'' = Inr over_no"
    and dv: "get_default over_block ''deliveries'' (JArr []) = Inr dv"
    and ds: "py_iter dv = Inr ds"
    and loop: "deliveries_loop str m n team over_no balls ds = Inr out"
    by (auto simp: bind_eq_Inr)
  from g have obj: "is_obj over_block" and o: "over_no = member over_block ''over'' JNull"
    by (auto dest: get_Inr)
  from dv have dv_eq: "dv = member over_block ''deliveries'' (JArr [])"
    by (auto dest: get_default_Inr)
  from deliveries_loop_Inr [OF loop] obtain rows where
    rows: "out = balls @ rows" "map Inr rows = map (delivery_row str m n team over_no) ds"
    by blast
  from rows(2) have "list_all is_obj ds" by (rule rows_objs)
  with ds have "ds = entries dv" by (rule py_iter_objs)
  with dv_eq have "ds = over_deliveries over_block" by (simp add: over_deliveries_def)
  with obj o rows show ?thesis by blast
qed

lemma over_step_total:
  assumes "wf_vars m" and "wf_over over_block"
  shows "\<exists>out. bind (get over_block ''over'') (\<lambda>over_no.
           bind (get_default over_block ''deliveries'' (JArr [])) (\<lambda>dv.
           bind (py_iter dv) (\<lambda>ds.
           deliveries_loop str m n team over_no balls ds))) = Inr out"
proof -
  from assms(2) have obj: "is_obj over_block"
    and arr: "is_arr (member over_block ''deliveries'' (JArr []))"
    and ds: "list_all wf_delivery (entries (member over_block ''deliveries'' (JArr [])))"
    by (simp_all add: wf_over_def)
  from arr have "py_iter (member over_block ''deliveries'' (JArr []))
                   = Inr (entries (member over_block ''deliveries'' (JArr [])))"
    by (cases "member over_block ''deliveries'' (JArr [])") simp_all
  with obj deliveries_loop_total [OF assms(1) ds] show ?thesis
    by (simp add: get_obj get_default_obj)
qed

lemma overs_loop_Inr:
  "overs_loop str m n team balls obs = Inr out \<Longrightarrow>
   list_all is_obj obs
   \<and> (\<exists>rows. out = balls @ rows
        \<and> map Inr rows =
            concat (map (\<lambda>over_block.
                           map (delivery_row str m n team (member over_block ''over'' JNull))
                               (over_deliveries over_block)) obs))"
proof (induction obs arbitrary: balls)
  case Nil
  then show ?case by simp
next
  case (Cons ob obs)
  from Cons.prems obtain balls' where
    step: "bind (get ob ''over'') (\<lambda>over_no.
           bind (get_default ob ''deliveries'' (JArr [])) (\<lambda>dv.
           bind (py_iter dv) (\<lambda>ds.
           deliveries_loop str m n team over_no balls ds))) = Inr balls'"
    and rest: "overs_loop str m n team balls' obs = Inr out"
    by (auto split: sum.splits)
  from over_step_Inr [OF step] obtain rows1 where obj: "is_obj ob"
    and r1: "balls' = balls @ rows1"
      "map Inr rows1 = map (delivery_row str m n team (member ob ''over'' JNull)) (over_deliveries ob)"
    by blast
  from Cons.IH [OF rest] obtain rows2 where objs: "list_all is_obj obs"
    and r2: "out = balls' @ rows2"
      "map Inr rows2 =
         concat (map (\<lambda>over_block.
                        map (delivery_row str m n team (member over_block ''over'' JNull))
                            (over_deliveries over_block)) obs)"
    by blast
  from r1 r2 have "out = balls @ (rows1 @ rows2)
     \<and> map Inr (rows1 @ rows2) =
         concat (map (\<lambda>over_block.
                        map (delivery_row str m n team (member over_block ''over'' JNull))
                            (over_deliveries over_block)) (ob # obs))"
    by simp
  with obj objs show ?case by (simp del: map_append)
qed

lemma overs_loop_total:
  "wf_vars m \<Longrightarrow> list_all wf_over obs \<Longrightarrow> \<exists>out. overs_loop str m n team balls obs = Inr out"
proof (induction obs arbitrary: balls)
  case Nil
  then show ?case by simp
next
  case (Cons ob obs)
  then obtain balls' where
    "bind (get ob ''over'') (\<lambda>over_no.
       bind (get_default ob ''deliveries'' (JArr [])) (\<lambda>dv.
       bind (py_iter dv) (\<lambda>ds.
       deliveries_loop str m n team over_no balls ds))) = Inr balls'"
    using over_step_total [of m ob str n team balls] by auto
  with Cons show ?case by simp
qed

lemma row_of_innings:
  "map (row_of str m) (innings_encounter n inn) =
   concat (map (\<lambda>over_block.
                  map (delivery_row str m n (member inn ''team'' JNull)
                         (member over_block ''over'' JNull))
                      (over_deliveries over_block)) (innings_overs inn))"
  by (simp add: innings_encounter_def map_concat comp_def row_of_def)

lemma innings_step_Inr:
  assumes "bind (get inn ''team'') (\<lambda>team.
           bind (get_default inn ''overs'' (JArr [])) (\<lambda>ov.
           bind (py_iter ov) (\<lambda>obs.
           overs_loop str m n team balls obs))) = Inr out"
  shows "is_obj inn
     \<and> (\<exists>rows. out = balls @ rows \<and> map Inr rows = map (row_of str m) (innings_encounter n inn))"
proof -
  from assms obtain team ov obs where g: "get inn ''team'' = Inr team"
    and ov: "get_default inn ''overs'' (JArr []) = Inr ov"
    and it: "py_iter ov = Inr obs"
    and loop: "overs_loop str m n team balls obs = Inr out"
    by (auto simp: bind_eq_Inr)
  from g have obj: "is_obj inn" and t: "team = member inn ''team'' JNull"
    by (auto dest: get_Inr)
  from ov have ov_eq: "ov = member inn ''overs'' (JArr [])"
    by (auto dest: get_default_Inr)
  from overs_loop_Inr [OF loop] obtain rows where objs: "list_all is_obj obs"
    and rows: "out = balls @ rows"
      "map Inr rows =
         concat (map (\<lambda>over_block.
                        map (delivery_row str m n team (member over_block ''over'' JNull))
                            (over_deliveries over_block)) obs)"
    by blast
  from it objs have "obs = entries ov" by (rule py_iter_objs)
  with ov_eq have "obs = innings_overs inn" by (simp add: innings_overs_def)
  with rows t have "out = balls @ rows \<and> map Inr rows = map (row_of str m) (innings_encounter n inn)"
    by (simp only: row_of_innings)
  with obj show ?thesis by blast
qed

lemma innings_step_total:
  assumes "wf_vars m" and "wf_innings inn"
  shows "\<exists>out. bind (get inn ''team'') (\<lambda>team.
           bind (get_default inn ''overs'' (JArr [])) (\<lambda>ov.
           bind (py_iter ov) (\<lambda>obs.
           overs_loop str m n team balls obs))) = Inr out"
proof -
  from assms(2) have obj: "is_obj inn"
    and arr: "is_arr (member inn ''overs'' (JArr []))"
    and obs: "list_all wf_over (entries (member inn ''overs'' (JArr [])))"
    by (simp_all add: wf_innings_def)
  from arr have "py_iter (member inn ''overs'' (JArr []))
                   = Inr (entries (member inn ''overs'' (JArr [])))"
    by (cases "member inn ''overs'' (JArr [])") simp_all
  with obj overs_loop_total [OF assms(1) obs] show ?thesis
    by (simp add: get_obj get_default_obj)
qed

lemma innings_loop_Inr:
  "innings_loop str m n balls inns = Inr out \<Longrightarrow>
   list_all is_obj inns
   \<and> (\<exists>rows. out = balls @ rows \<and> map Inr rows = map (row_of str m) (encounter_from n inns))"
proof (induction inns arbitrary: n balls)
  case Nil
  then show ?case by simp
next
  case (Cons inn inns)
  from Cons.prems obtain balls' where
    step: "bind (get inn ''team'') (\<lambda>team.
           bind (get_default inn ''overs'' (JArr [])) (\<lambda>ov.
           bind (py_iter ov) (\<lambda>obs.
           overs_loop str m n team balls obs))) = Inr balls'"
    and rest: "innings_loop str m (n + 1) balls' inns = Inr out"
    by (auto split: sum.splits)
  from innings_step_Inr [OF step] obtain rows1 where obj: "is_obj inn"
    and r1: "balls' = balls @ rows1"
      "map Inr rows1 = map (row_of str m) (innings_encounter n inn)"
    by blast
  from Cons.IH [OF rest] obtain rows2 where objs: "list_all is_obj inns"
    and r2: "out = balls' @ rows2"
      "map Inr rows2 = map (row_of str m) (encounter_from (n + 1) inns)"
    by blast
  from r1 r2 have "out = balls @ (rows1 @ rows2)
     \<and> map Inr (rows1 @ rows2) = map (row_of str m) (encounter_from n (inn # inns))"
    by simp
  with obj objs show ?case by (simp del: map_append)
qed

lemma innings_loop_total:
  "wf_vars m \<Longrightarrow> list_all wf_innings inns \<Longrightarrow> \<exists>out. innings_loop str m n balls inns = Inr out"
proof (induction inns arbitrary: n balls)
  case Nil
  then show ?case by simp
next
  case (Cons inn inns)
  then obtain balls' where
    "bind (get inn ''team'') (\<lambda>team.
       bind (get_default inn ''overs'' (JArr [])) (\<lambda>ov.
       bind (py_iter ov) (\<lambda>obs.
       overs_loop str m n team balls obs))) = Inr balls'"
    using innings_step_total [of m inn str n balls] by auto
  with Cons show ?case by simp
qed

section \<open>Properties of the flattener as a whole\<close>

lemma flatten_match_Inr:
  assumes "flatten_match str doc = Inr balls"
  shows "map Inr balls = map (row_of str (vars_of doc)) (encounter doc)"
proof -
  from assms obtain info mid i_match_id i_venue i_city i_teams i_dates i_season iv inns where
    info: "get_default doc ''info'' (JObj []) = Inr info"
    and mid: "get info ''match_id'' = Inr mid"
    and mi: "(if truthy mid then Inr mid
              else bind (get_default info ''event'' (JObj [])) (\<lambda>ev. get ev ''match_number''))
             = Inr i_match_id"
    and gets: "get info ''venue'' = Inr i_venue" "get info ''city'' = Inr i_city"
      "get info ''teams'' = Inr i_teams" "get info ''dates'' = Inr i_dates"
      "get info ''season'' = Inr i_season"
    and iv: "get_default doc ''innings'' (JArr []) = Inr iv"
    and it: "py_iter iv = Inr inns"
    and loop: "innings_loop str
       \<lparr> v_match_id = i_match_id, v_season = i_season, v_dates = i_dates,
         v_venue = i_venue, v_city = i_city, v_teams = i_teams \<rparr>
       1 [] inns = Inr balls"
    unfolding flatten_match_def bind_eq_Inr by blast
  from info have info_eq: "info = info_of doc"
    by (auto simp: info_of_def dest: get_default_Inr)
  from mid have mid_eq: "mid = member info ''match_id'' JNull"
    by (auto dest: get_Inr)
  have mi_eq: "i_match_id = (if truthy mid then mid else match_number info)"
  proof (cases "truthy mid")
    case True
    with mi show ?thesis by simp
  next
    case False
    with mi obtain ev where "get_default info ''event'' (JObj []) = Inr ev"
        "get ev ''match_number'' = Inr i_match_id"
      by (auto simp: bind_eq_Inr)
    then have "i_match_id = match_number info"
      by (auto simp: match_number_def dest!: get_default_Inr get_Inr)
    with False show ?thesis by simp
  qed
  from gets have "i_venue = member info ''venue'' JNull" "i_city = member info ''city'' JNull"
      "i_teams = member info ''teams'' JNull" "i_dates = member info ''dates'' JNull"
      "i_season = member info ''season'' JNull"
    by (auto dest: get_Inr)
  with info_eq mid_eq mi_eq have m:
    "\<lparr> v_match_id = i_match_id, v_season = i_season, v_dates = i_dates,
       v_venue = i_venue, v_city = i_city, v_teams = i_teams \<rparr> = vars_of doc"
    by (simp add: vars_of_def)
  from innings_loop_Inr [OF loop] m have objs: "list_all is_obj inns"
    and rows: "map Inr balls = map (row_of str (vars_of doc)) (encounter_from 1 inns)"
    by auto
  from it objs have "inns = entries iv" by (rule py_iter_objs)
  moreover from iv have "iv = member doc ''innings'' (JArr [])"
    by (auto dest: get_default_Inr)
  ultimately have "inns = doc_innings doc" by (simp add: doc_innings_def)
  with rows show ?thesis by (simp add: encounter_def)
qed

lemma flatten_match_total:
  assumes "wf_doc doc"
  shows "\<exists>balls. flatten_match str doc = Inr balls"
proof -
  from assms have doc: "is_obj doc" and info: "is_obj (info_of doc)"
    and ev: "truthy (member (info_of doc) ''match_id'' JNull)
             \<or> is_obj (member (info_of doc) ''event'' (JObj []))"
    and vars: "wf_vars (vars_of doc)"
    and arr: "is_arr (member doc ''innings'' (JArr []))"
    and inns: "list_all wf_innings (entries (member doc ''innings'' (JArr [])))"
    by (simp_all add: wf_doc_def)
  from arr have it: "py_iter (member doc ''innings'' (JArr []))
                       = Inr (entries (member doc ''innings'' (JArr [])))"
    by (cases "member doc ''innings'' (JArr [])") simp_all
  have mi: "(if truthy (member (info_of doc) ''match_id'' JNull)
             then Inr (member (info_of doc) ''match_id'' JNull)
             else bind (get_default (info_of doc) ''event'' (JObj [])) (\<lambda>ev. get ev ''match_number''))
            = Inr (v_match_id (vars_of doc))"
    using ev info by (auto simp: vars_of_def match_number_def get_default_obj get_obj)
  have m: "\<lparr> v_match_id = v_match_id (vars_of doc),
             v_season = member (info_of doc) ''season'' JNull,
             v_dates = member (info_of doc) ''dates'' JNull,
             v_venue = member (info_of doc) ''venue'' JNull,
             v_city = member (info_of doc) ''city'' JNull,
             v_teams = member (info_of doc) ''teams'' JNull \<rparr> = vars_of doc"
    by (simp add: vars_of_def)
  from innings_loop_total [OF vars inns, of str 1 "[]"] obtain balls where
    "innings_loop str (vars_of doc) 1 [] (entries (member doc ''innings'' (JArr []))) = Inr balls"
    by blast
  with doc info it mi m have "flatten_match str doc = Inr balls"
    by (simp add: flatten_match_def get_default_obj get_obj info_of_def [symmetric])
  then show ?thesis by blast
qed

lemma length_innings_encounter:
  "length (innings_encounter n inn) =
   (\<Sum>over_block \<leftarrow> innings_overs inn. length (over_deliveries over_block))"
  by (simp add: innings_encounter_def length_concat comp_def)

lemma length_encounter_from:
  "length (encounter_from n inns) =
   (\<Sum>inn \<leftarrow> inns. \<Sum>over_block \<leftarrow> innings_overs inn. length (over_deliveries over_block))"
  by (induction inns arbitrary: n) (simp_all add: length_innings_encounter)

lemma length_encounter: "length (encounter doc) = delivery_count doc"
  by (simp add: encounter_def delivery_count_def length_encounter_from)

lemma row_key_delivery: "row_of str m e = Inr b \<Longrightarrow> row_key b = delivery_key e"
  by (cases e) (simp add: row_of_def row_key_def delivery_key_def delivery_row_Inr)

lemma row_keys:
  "map Inr balls = map (row_of str m) es \<Longrightarrow> map row_key balls = map delivery_key es"
proof (induction es arbitrary: balls)
  case Nil
  then show ?case by simp
next
  case (Cons e es)
  then obtain b bs where "balls = b # bs" "row_of str m e = Inr b"
      "map Inr bs = map (row_of str m) es"
    by (cases balls) auto
  with Cons.IH show ?case by (simp add: row_key_delivery)
qed

lemma rows_match_id:
  "map Inr balls = map (row_of str m) es \<Longrightarrow> list_all (\<lambda>b. match_id b = v_match_id m) balls"
proof (induction es arbitrary: balls)
  case Nil
  then show ?case by simp
next
  case (Cons e es)
  then obtain b bs where "balls = b # bs" "row_of str m e = Inr b"
      "map Inr bs = map (row_of str m) es"
    by (cases balls) auto
  with Cons.IH show ?case
    by (cases e) (simp add: row_of_def delivery_row_Inr(2))
qed

lemma example_doc_wf: "wf_doc example_doc"
  by (simp add: wf_doc_def example_doc_def info_of_def vars_of_def wf_vars_def wf_innings_def
        wf_over_def example_wf)

lemma example_doc_vars: "vars_of example_doc = example_vars"
  by (simp add: vars_of_def example_doc_def info_of_def match_number_def example_vars_def)

lemma example_doc_encounter:
  "map delivery_key (encounter example_doc) =
     [(1, JStr ''India'', JInt 0, JNull, JStr ''Jaiswal'', JStr ''Woakes'', JStr ''Rahul''),
      (1, JStr ''India'', JInt 0, JNull, JStr ''Gill'', JStr ''Stokes'', JNull),
      (1, JStr ''India'', JInt 1, JNull, JStr ''Rahul'', JStr ''Carse'', JNull),
      (2, JStr ''England'', JInt 0, JNull, JStr ''Rahul'', JStr ''Carse'', JNull)]"
  by (simp add: encounter_def doc_innings_def example_doc_def innings_encounter_def
        innings_overs_def over_deliveries_def delivery_key_def
        plain_delivery_def double_delivery_def bowled_delivery_def sparse_delivery_def)

lemma example_doc_count: "delivery_count example_doc = 4"
  by (simp add: delivery_count_def doc_innings_def example_doc_def
        innings_overs_def over_deliveries_def)

text \<open>
  C1. A well-formed document is flattened without an exception. Whenever
  \<^verbatim>\<open>flatten_match\<close> returns, its rows are exactly the rows of the deliveries of the
  document in encounter order (innings, then overs, then deliveries), one row for each:
  their number is the sum of the delivery counts of all overs of all innings, and the
  identifying fields of the k-th row are those of the k-th delivery encountered.
\<close>

theorem flatten_one_row_per_delivery:
  "(wf_doc doc \<longrightarrow> (\<exists>balls. flatten_match str doc = Inr balls))
   \<and> (\<forall>balls. flatten_match str doc = Inr balls \<longrightarrow>
          length balls = delivery_count doc
        \<and> delivery_count doc =
            (\<Sum>inn \<leftarrow> doc_innings doc. \<Sum>over_block \<leftarrow> innings_overs inn.
                length (over_deliveries over_block))
        \<and> map Inr balls = map (row_of str (vars_of doc)) (encounter doc)
        \<and> map row_key balls = map delivery_key (encounter doc))"
proof (intro conjI allI impI)
  assume "wf_doc doc"
  then show "\<exists>balls. flatten_match str doc = Inr balls"
    by (rule flatten_match_total)
next
  fix balls
  assume a: "flatten_match str doc = Inr balls"
  note rows = flatten_match_Inr [OF a]
  from rows show "map Inr balls = map (row_of str (vars_of doc)) (encounter doc)" .
  from rows show "map row_key balls = map delivery_key (encounter doc)"
    by (rule row_keys)
  from rows have "length (map Inr balls :: (error + ball) list) = length (encounter doc)"
    by simp
  then show "length balls = delivery_count doc"
    by (simp add: length_encounter)
  show "delivery_count doc =
            (\<Sum>inn \<leftarrow> doc_innings doc. \<Sum>over_block \<leftarrow> innings_overs inn.
                length (over_deliveries over_block))"
    by (simp add: delivery_count_def)
qed

theorem flatten_one_row_per_delivery_witness:
  "wf_doc example_doc \<and> delivery_count example_doc = 4
   \<and> (\<exists>balls. flatten_match sample_str example_doc = Inr balls
        \<and> length balls = 4
        \<and> map row_key balls =
            [(1, JStr ''India'', JInt 0, JNull, JStr ''Jaiswal'', JStr ''Woakes'', JStr ''Rahul''),
             (1, JStr ''India'', JInt 0, JNull, JStr ''Gill'', JStr ''Stokes'', JNull),
             (1, JStr ''India'', JInt 1, JNull, JStr ''Rahul'', JStr ''Carse'', JNull),
             (2, JStr ''England'', JInt 0, JNull, JStr ''Rahul'', JStr ''Carse'', JNull)])"
proof -
  note inst = flatten_one_row_per_delivery [of example_doc sample_str]
  from inst [THEN conjunct1, rule_format, OF example_doc_wf] obtain balls where
    b: "flatten_match sample_str example_doc = Inr balls" ..
  note rows = inst [THEN conjunct2, rule_format, OF b]
  from rows have "length balls = delivery_count example_doc" by (rule conjunct1)
  then have l: "length balls = 4" by (simp only: example_doc_count)
  from rows [THEN conjunct2, THEN conjunct2, THEN conjunct2]
  have k: "map row_key balls =
            [(1, JStr ''India'', JInt 0, JNull, JStr ''Jaiswal'', JStr ''Woakes'', JStr ''Rahul''),
             (1, JStr ''India'', JInt 0, JNull, JStr ''Gill'', JStr ''Stokes'', JNull),
             (1, JStr ''India'', JInt 1, JNull, JStr ''Rahul'', JStr ''Carse'', JNull),
             (2, JStr ''England'', JInt 0, JNull, JStr ''Rahul'', JStr ''Carse'', JNull)]"
    by (simp only: example_doc_encounter)
  from b l k have "\<exists>balls. flatten_match sample_str example_doc = Inr balls
        \<and> length balls = 4
        \<and> map row_key balls =
            [(1, JStr ''India'', JInt 0, JNull, JStr ''Jaiswal'', JStr ''Woakes'', JStr ''Rahul''),
             (1, JStr ''India'', JInt 0, JNull, JStr ''Gill'', JStr ''Stokes'', JNull),
             (1, JStr ''India'', JInt 1, JNull, JStr ''Rahul'', JStr ''Carse'', JNull),
             (2, JStr ''England'', JInt 0, JNull, JStr ''Rahul'', JStr ''Carse'', JNull)]"
    by (intro exI [of _ balls] conjI)
  with example_doc_wf example_doc_count show ?thesis
    by (intro conjI)
qed

lemma anonymous_doc_wf: "wf_doc anonymous_doc"
  by (simp add: wf_doc_def anonymous_doc_def info_of_def vars_of_def wf_vars_def wf_innings_def
        wf_over_def bare_wf match_number_def)

lemma anonymous_doc_count: "delivery_count anonymous_doc = 1"
  by (simp add: delivery_count_def doc_innings_def anonymous_doc_def
        innings_overs_def over_deliveries_def)

text \<open>
  C9. A well-formed document is flattened without an exception. Whenever
  \<^verbatim>\<open>flatten_match\<close> returns on a document whose info has no \<^verbatim>\<open>match_id\<close>, the field
  \<^verbatim>\<open>match_id\<close> of every row is the \<^verbatim>\<open>match_number\<close> of the event of the info, which is
  null when the event or its \<^verbatim>\<open>match_number\<close> is missing; so the field is null only
  if that value is.
\<close>

theorem match_id_falls_back_to_match_number:
  "(wf_doc doc \<longrightarrow> (\<exists>balls. flatten_match str doc = Inr balls))
   \<and> (\<forall>balls. flatten_match str doc = Inr balls \<and> omits (info_of doc) ''match_id'' \<longrightarrow>
          list_all (\<lambda>b. match_id b =
                         member (member (info_of doc) ''event'' (JObj [])) ''match_number'' JNull)
                   balls
        \<and> list_all (\<lambda>b. match_id b = JNull \<longrightarrow>
                         member (member (info_of doc) ''event'' (JObj [])) ''match_number'' JNull
                           = JNull)
                   balls)"
proof (intro conjI allI impI)
  assume "wf_doc doc"
  then show "\<exists>balls. flatten_match str doc = Inr balls"
    by (rule flatten_match_total)
next
  fix balls
  assume a: "flatten_match str doc = Inr balls \<and> omits (info_of doc) ''match_id''"
  then have "v_match_id (vars_of doc)
               = member (member (info_of doc) ''event'' (JObj [])) ''match_number'' JNull"
    by (simp add: vars_of_def member_omits match_number_def)
  with a rows_match_id [OF flatten_match_Inr, of str doc balls]
  show *: "list_all (\<lambda>b. match_id b =
                         member (member (info_of doc) ''event'' (JObj [])) ''match_number'' JNull)
                   balls"
    by simp
  then show "list_all (\<lambda>b. match_id b = JNull \<longrightarrow>
                         member (member (info_of doc) ''event'' (JObj [])) ''match_number'' JNull
                           = JNull)
                   balls"
    by (simp add: list_all_iff)
qed

theorem match_id_falls_back_to_match_number_witness:
  "wf_doc example_doc \<and> omits (info_of example_doc) ''match_id''
   \<and> (\<exists>balls. flatten_match sample_str example_doc = Inr balls
        \<and> length balls = 4 \<and> list_all (\<lambda>b. match_id b = JInt 3) balls)
   \<and> wf_doc anonymous_doc \<and> omits (info_of anonymous_doc) ''match_id''
   \<and> member (member (info_of anonymous_doc) ''event'' (JObj [])) ''match_number'' JNull = JNull
   \<and> (\<exists>balls. flatten_match sample_str anonymous_doc = Inr balls
        \<and> length balls = 1 \<and> list_all (\<lambda>b. match_id b = JNull) balls)"
proof -
  have o: "omits (info_of example_doc) ''match_id''"
    and n: "member (member (info_of example_doc) ''event'' (JObj [])) ''match_number'' JNull = JInt 3"
    by (simp_all add: info_of_def example_doc_def)
  have o': "omits (info_of anonymous_doc) ''match_id''"
    and n': "member (member (info_of anonymous_doc) ''event'' (JObj [])) ''match_number'' JNull = JNull"
    by (simp_all add: info_of_def anonymous_doc_def)
  note inst = match_id_falls_back_to_match_number [of example_doc sample_str]
  note inst' = match_id_falls_back_to_match_number [of anonymous_doc sample_str]
  from inst example_doc_wf obtain balls where
    b: "flatten_match sample_str example_doc = Inr balls"
    by blast
  with inst o n have m: "list_all (\<lambda>b. match_id b = JInt 3) balls"
    by simp
  from flatten_match_Inr [OF b] have l: "length balls = 4"
    using length_encounter [of example_doc] example_doc_count
    by (metis length_map)
  from inst' anonymous_doc_wf obtain balls' where
    b': "flatten_match sample_str anonymous_doc = Inr balls'"
    by blast
  with inst' o' n' have m': "list_all (\<lambda>b. match_id b = JNull) balls'"
    by simp
  from flatten_match_Inr [OF b'] have l': "length balls' = 1"
    using length_encounter [of anonymous_doc] anonymous_doc_count
    by (metis length_map)
  from b m l have p: "\<exists>balls. flatten_match sample_str example_doc = Inr balls
        \<and> length balls = 4 \<and> list_all (\<lambda>b. match_id b = JInt 3) balls"
    by blast
  from b' m' l' have q: "\<exists>balls. flatten_match sample_str anonymous_doc = Inr balls
        \<and> length balls = 1 \<and> list_all (\<lambda>b. match_id b = JNull) balls"
    by blast
  from p q o o' n' example_doc_wf anonymous_doc_wf show ?thesis by simp
qed

section \<open>Properties of the pipeline\<close>

lemma scan_entry_cases:
  "scan_entry str fiso loaded = Inr []
   \<or> (\<exists>e. scan_entry str fiso loaded = Inl e)
   \<or> (\<exists>obj. loaded = Some obj \<and> qualifies str fiso obj)"
proof (cases loaded)
  case None
  then show ?thesis by (simp add: scan_entry_def)
next
  case (Some obj)
  show ?thesis
  proof (cases "is_obj obj")
    case False
    with Some show ?thesis
      by (cases obj) (simp_all add: scan_entry_def)
  next
    case True
    then have info: "get_default obj ''info'' (JObj []) = Inr (info_of obj)"
      by (simp add: get_default_obj info_of_def)
    show ?thesis
    proof (cases "is_ind_eng_test (info_of obj)")
      case (Inl e)
      with Some info show ?thesis by (simp add: scan_entry_def)
    next
      case t: (Inr t)
      show ?thesis
      proof (cases "within_series_window str fiso (info_of obj)")
        case (Inl e)
        with Some info t show ?thesis by (simp add: scan_entry_def)
      next
        case (Inr w)
        with Some info t True show ?thesis
          by (cases t; cases w) (simp_all add: scan_entry_def qualifies_def)
      qed
    qed
  qed
qed

lemma scan_entry_turned_down:
  "turned_down str fiso obj \<Longrightarrow> scan_entry str fiso (Some obj) = Inr []"
  by (auto simp: turned_down_def scan_entry_def get_default_obj info_of_def)

lemma scan_none_qualifies:
  "list_all (\<lambda>entry. case snd entry of None \<Rightarrow> True | Some obj \<Rightarrow> \<not> qualifies str fiso obj) es
   \<Longrightarrow> scan str fiso rows es = Inr rows \<or> (\<exists>e. scan str fiso rows es = Inl e)"
proof (induction es)
  case Nil
  then show ?case by simp
next
  case (Cons entry es)
  then have "\<not> (\<exists>obj. snd entry = Some obj \<and> qualifies str fiso obj)"
    by (auto split: option.splits)
  with scan_entry_cases [of str fiso "snd entry"]
  have "scan_entry str fiso (snd entry) = Inr [] \<or> (\<exists>e. scan_entry str fiso (snd entry) = Inl e)"
    by blast
  with Cons show ?case by auto
qed

lemma scan_all_turned_down:
  "list_all (\<lambda>entry. case snd entry of None \<Rightarrow> True | Some obj \<Rightarrow> turned_down str fiso obj) es
   \<Longrightarrow> scan str fiso rows es = Inr rows"
proof (induction es)
  case Nil
  then show ?case by simp
next
  case (Cons entry es)
  have "scan_entry str fiso (snd entry) = Inr []"
  proof (cases "snd entry")
    case None
    then show ?thesis by (simp add: scan_entry_def)
  next
    case (Some obj)
    with Cons.prems show ?thesis by (simp add: scan_entry_turned_down)
  qed
  with Cons show ?case by simp
qed

lemma main_never_empty: "main str fiso archive \<noteq> Inr []"
  by (cases "scan str fiso [] (filter (\<lambda>entry. endswith (fst entry) ''.json'') archive)")
     (simp_all add: main_def)

text \<open>
  C8. When no document read from the archive passes the three filters, \<^verbatim>\<open>main\<close> ends
  in an exception and line 140 is never reached, so nothing is written; when moreover
  every document is turned down without an exception, the exception is the
  \<^verbatim>\<open>SystemExit\<close> of line 137 with its message. In no run does \<^verbatim>\<open>main\<close> reach the
  writing of the table with no rows.
\<close>

theorem no_qualifying_match_is_fatal:
  "(none_qualifies str fiso archive \<longrightarrow> (\<exists>e. main str fiso archive = Inl e))
   \<and> (all_turned_down str fiso archive \<longrightarrow> main str fiso archive = Inl (SystemExit exit_message))
   \<and> main str fiso archive \<noteq> Inr []"
proof (intro conjI impI)
  assume "none_qualifies str fiso archive"
  then have "scan str fiso [] (json_entries archive) = Inr []
             \<or> (\<exists>e. scan str fiso [] (json_entries archive) = Inl e)"
    unfolding none_qualifies_def by (rule scan_none_qualifies)
  then show "\<exists>e. main str fiso archive = Inl e"
    by (auto simp: main_def json_entries_def)
next
  assume "all_turned_down str fiso archive"
  then have "scan str fiso [] (json_entries archive) = Inr []"
    unfolding all_turned_down_def by (rule scan_all_turned_down)
  then show "main str fiso archive = Inl (SystemExit exit_message)"
    by (simp add: main_def json_entries_def)
next
  show "main str fiso archive \<noteq> Inr []"
    by (rule main_never_empty)
qed

lemma example_filters:
  "is_ind_eng_test (info_of other_doc) = Inr False"
  "is_obj other_doc"
  by (simp_all add: other_doc_def info_of_def is_ind_eng_test_def category_rejects_def get_def
        py_or_def py_set_def lower_char_def)

lemma example_entries:
  "json_entries [(''1.json'', Some other_doc), (''README.txt'', Some example_doc), (''2.json'', None)]
     = [(''1.json'', Some other_doc), (''2.json'', None)]"
  by (simp add: json_entries_def endswith_def)

theorem no_qualifying_match_is_fatal_witness:
  "none_qualifies sample_str sample_fromisoformat
     [(''1.json'', Some other_doc), (''README.txt'', Some example_doc), (''2.json'', None)]
   \<and> all_turned_down sample_str sample_fromisoformat
     [(''1.json'', Some other_doc), (''README.txt'', Some example_doc), (''2.json'', None)]
   \<and> main sample_str sample_fromisoformat
     [(''1.json'', Some other_doc), (''README.txt'', Some example_doc), (''2.json'', None)]
       = Inl (SystemExit exit_message)"
proof -
  have t: "all_turned_down sample_str sample_fromisoformat
     [(''1.json'', Some other_doc), (''README.txt'', Some example_doc), (''2.json'', None)]"
    unfolding all_turned_down_def example_entries
    by (simp add: turned_down_def example_filters)
  have n: "none_qualifies sample_str sample_fromisoformat
     [(''1.json'', Some other_doc), (''README.txt'', Some example_doc), (''2.json'', None)]"
    unfolding none_qualifies_def example_entries
    by (simp add: qualifies_def example_filters)
  from t n no_qualifying_match_is_fatal [of sample_str sample_fromisoformat
     "[(''1.json'', Some other_doc), (''README.txt'', Some example_doc), (''2.json'', None)]"]
  show ?thesis by (intro conjI) (rule n, rule t, blast)
qed

end
